theory Spec2Isabelle
  imports Complex_Main "HOL-Library.Log_Nat"
begin

section \<open>JavaScript numbers\<close>

text \<open>
  A JavaScript \<^verbatim>\<open>number\<close> is an IEEE-754 binary64 value. The only arithmetic of the
  program is \<^verbatim>\<open>Math.round((MAX_DIMENSION / a) * b)\<close> on frame dimensions, so the finite
  non-negative numbers are modelled as the rationals they denote, and every operation
  rounds its exact result to a 53-bit significand, ties to even (\<open>fl\<close>). The exponent
  range is not bounded in the model: video dimensions are 32-bit unsigned integers, for
  which every intermediate value lies between \<open>2 ^ - 24\<close> and \<open>480\<close>, far from
  overflow and from the subnormal numbers.
\<close>

definition pow2 :: "int \<Rightarrow> rat" where
  "pow2 e = (if 0 \<le> e then 2 ^ nat e else 1 / 2 ^ nat (- e))"

text \<open>The exponent \<open>e\<close> of a positive rational \<open>x\<close>: \<open>2 ^ e \<le> x < 2 ^ (e + 1)\<close>.\<close>

definition binade :: "rat \<Rightarrow> int" where
  "binade x = (case quotient_of x of (p, q) \<Rightarrow>
     (let d = bitlen p - bitlen q in if pow2 d \<le> x then d else d - 1))"

definition round_ties_even :: "rat \<Rightarrow> int" where
  "round_ties_even y = (let f = \<lfloor>y\<rfloor>; r = y - of_int f in
     if r < 1 / 2 then f else if 1 / 2 < r then f + 1 else if even f then f else f + 1)"

text \<open>Rounding to the nearest binary64 number: a multiple of \<open>2 ^ (e - 52)\<close>.\<close>

definition fl :: "rat \<Rightarrow> rat" where
  "fl x = (if x = 0 then 0 else
     (let u = pow2 (binade \<bar>x\<bar> - 52) in sgn x * (of_int (round_ties_even (\<bar>x\<bar> / u)) * u)))"

text \<open>
  \<^verbatim>\<open>Math.round\<close> is exact: the integer closest to its argument, the larger one at a tie.
\<close>

definition Math_round :: "rat \<Rightarrow> int" where
  "Math_round x = \<lfloor>x + 1 / 2\<rfloor>"

section \<open>Frame Sampler: the target dimensions of \<^verbatim>\<open>processFrame\<close>\<close>

definition MAX_DIMENSION :: nat where
  "MAX_DIMENSION = 480"

text \<open>Lines 115 to 131 of \<^verbatim>\<open>App.tsx\<close>; the result is \<open>(targetWidth, targetHeight)\<close>.\<close>

definition targetDimensions :: "nat \<Rightarrow> nat \<Rightarrow> nat \<times> nat" where
  "targetDimensions videoWidth videoHeight =
     (if videoWidth > videoHeight then
        (if videoWidth > MAX_DIMENSION then
           (MAX_DIMENSION,
            nat (Math_round (fl (fl (of_nat MAX_DIMENSION / of_nat videoWidth) * of_nat videoHeight))))
         else (videoWidth, videoHeight))
      else
        (if videoHeight > MAX_DIMENSION then
           (nat (Math_round (fl (fl (of_nat MAX_DIMENSION / of_nat videoHeight) * of_nat videoWidth))),
            MAX_DIMENSION)
         else (videoWidth, videoHeight)))"

section \<open>JavaScript strings and exceptions\<close>

text \<open>A string is its sequence of UTF-16 code units.\<close>

type_synonym jsstring = "nat list"

definition js :: "string \<Rightarrow> jsstring" where
  "js s = map of_char s"

text \<open>The code units that \<^verbatim>\<open>.\<close> does not match: LF, CR, U+2028 and U+2029.\<close>

definition lineTerminator :: "nat \<Rightarrow> bool" where
  "lineTerminator c = (c = 10 \<or> c = 13 \<or> c = 8232 \<or> c = 8233)"

text \<open>A thrown value: an \<^verbatim>\<open>Error\<close> object with its message, or anything else.\<close>

datatype js_exn = Error jsstring | Thrown

section \<open>The Scene Analyzer: \<^verbatim>\<open>geminiService\<close>\<close>

record inlineData =
  mimeType :: jsstring
  data :: jsstring

text \<open>
  The match of \<^verbatim>\<open>/^data:(.+);base64,(.+)$/\<close> after the prefix \<^verbatim>\<open>data:\<close>. The first
  group is greedy: it is tried at its longest and shortened one code unit at a time until
  the separator and a non-empty second group follow. \<open>backtrack n r\<close> tries the lengths
  \<open>n\<close>, \<open>n - 1\<close>, ..., \<open>1\<close> of the first group on the rest \<open>r\<close>.
\<close>

fun backtrack :: "nat \<Rightarrow> jsstring \<Rightarrow> (jsstring \<times> jsstring) option" where
  "backtrack 0 r = None"
| "backtrack (Suc n) r =
     (if take 8 (drop (Suc n) r) = js '';base64,'' \<and> drop (Suc n + 8) r \<noteq> []
      then Some (take (Suc n) r, drop (Suc n + 8) r)
      else backtrack n r)"

definition dataUrlMatch :: "jsstring \<Rightarrow> (jsstring \<times> jsstring) option" where
  "dataUrlMatch s =
     (if take 5 s = js ''data:'' \<and> \<not> list_ex lineTerminator (drop 5 s)
      then backtrack (length s - 5 - 9) (drop 5 s)
      else None)"

definition fileToGenerativePart :: "jsstring \<Rightarrow> js_exn + inlineData" where
  "fileToGenerativePart base64Data =
     (case dataUrlMatch base64Data of
        None \<Rightarrow> Inl (Error (js ''Invalid base64 data URL format''))
      | Some (m1, m2) \<Rightarrow> Inr \<lparr>mimeType = m1, data = m2\<rparr>)"

text \<open>
  The remote call \<^verbatim>\<open>ai.models.generateContent\<close> is opaque: it settles with a response whose
  \<^verbatim>\<open>text\<close> is a string or undefined, or it fails (the promise is rejected, or reading the
  response throws). The prompt and the model name are constants of the request.
\<close>

datatype generateContentResult = Resolved "jsstring option" | Rejected js_exn

text \<open>The \<^verbatim>\<open>try\<close> block of \<^verbatim>\<open>analyzeScene\<close>: \<open>Inl\<close> is an exception raised in it.\<close>

definition analyzeScene_try ::
  "(inlineData \<Rightarrow> generateContentResult) \<Rightarrow> jsstring \<Rightarrow> js_exn + jsstring" where
  "analyzeScene_try generateContent base64ImageData =
     (case fileToGenerativePart base64ImageData of
        Inl e \<Rightarrow> Inl e
      | Inr imagePart \<Rightarrow>
          (case generateContent imagePart of
             Rejected e \<Rightarrow> Inl e
           | Resolved None \<Rightarrow> Inr (js ''No clear view.'')
           | Resolved (Some t) \<Rightarrow> if t = [] then Inr (js ''No clear view.'') else Inr t))"

text \<open>
  \<^verbatim>\<open>analyzeScene\<close> with its \<^verbatim>\<open>catch\<close>: the settled promise, \<open>Inl\<close> a rejection and
  \<open>Inr\<close> the string it resolves to.
\<close>

definition analyzeScene ::
  "(inlineData \<Rightarrow> generateContentResult) \<Rightarrow> jsstring \<Rightarrow> js_exn + jsstring" where
  "analyzeScene generateContent base64ImageData =
     (case analyzeScene_try generateContent base64ImageData of
        Inl e \<Rightarrow> Inr (js ''Error analyzing.'')
      | Inr description \<Rightarrow> Inr description)"

section \<open>The Assistant Loop: \<^verbatim>\<open>App.tsx\<close>\<close>

subsection \<open>State\<close>

record SpeechSynthesisVoice =
  voice_name :: jsstring
  voice_lang :: jsstring

text \<open>
  The callbacks \<^verbatim>\<open>speak\<close>, \<^verbatim>\<open>startCamera\<close> and \<^verbatim>\<open>processFrame\<close> are built with
  \<^verbatim>\<open>useCallback\<close>: each closes over the state values of the render that created it. A
  \<open>closure\<close> holds the two values that \<^verbatim>\<open>speak\<close> reads.
\<close>

record closure =
  c_isAssistantActive :: bool
  c_voices :: "SpeechSynthesisVoice list"

text \<open>
  An utterance with its text, its voice, and the value of \<^verbatim>\<open>isAssistantActive\<close> that its
  \<^verbatim>\<open>onend\<close> callback closes over.
\<close>

record SpeechSynthesisUtterance =
  u_text :: jsstring
  u_voice :: "SpeechSynthesisVoice option"
  u_onend_isAssistantActive :: bool

record HTMLVideoElement =
  srcObject :: "nat option"

record HTMLCanvasElement =
  canvas_width :: nat
  canvas_height :: nat

text \<open>
  The state of the component (\<^verbatim>\<open>useState\<close> and \<^verbatim>\<open>useRef\<close> values), of the platform it
  drives (the speech queue, the running camera tracks, the registered interval timers, the
  next fresh handle), the calls it is awaiting, and the history of the calls it has made
  to the speech engine and to \<^verbatim>\<open>analyzeScene\<close>. Streams and timers are handles.
\<close>

record app =
  isAssistantActive :: bool
  statusMessage :: jsstring
  error :: "jsstring option"
  voices :: "SpeechSynthesisVoice list"
  videoRef :: "HTMLVideoElement option"
  canvasRef :: "HTMLCanvasElement option"
  mediaStreamRef :: "nat option"
  processingIntervalRef :: "nat option"
  isProcessingRef :: bool
  isSpeakingRef :: bool
  speechQueue :: "SpeechSynthesisUtterance list"
  liveTracks :: "nat set"
  intervals :: "nat set"
  nextHandle :: nat
  pendingGetUserMedia :: "closure list"
  pendingAnalyze :: "(closure \<times> jsstring) list"
  speakCalls :: "jsstring list"
  analyzeCalls :: "jsstring list"

text \<open>The component once it is rendered: both elements are attached to their refs.\<close>

definition init :: app where
  "init = \<lparr>isAssistantActive = False,
     statusMessage = js ''Tap screen to begin'',
     error = None,
     voices = [],
     videoRef = Some \<lparr>srcObject = None\<rparr>,
     canvasRef = Some \<lparr>canvas_width = 300, canvas_height = 150\<rparr>,
     mediaStreamRef = None,
     processingIntervalRef = None,
     isProcessingRef = False,
     isSpeakingRef = False,
     speechQueue = [],
     liveTracks = {},
     intervals = {},
     nextHandle = 1,
     pendingGetUserMedia = [],
     pendingAnalyze = [],
     speakCalls = [],
     analyzeCalls = []\<rparr>"

definition closure_of :: "app \<Rightarrow> closure" where
  "closure_of s = \<lparr>c_isAssistantActive = isAssistantActive s, c_voices = voices s\<rparr>"

subsection \<open>Speech Output Adapter\<close>

definition speechSynthesis_cancel :: "app \<Rightarrow> app" where
  "speechSynthesis_cancel s = s\<lparr>speechQueue := []\<rparr>"

definition speechSynthesis_speak :: "SpeechSynthesisUtterance \<Rightarrow> app \<Rightarrow> app" where
  "speechSynthesis_speak utterance s =
     s\<lparr>speechQueue := speechQueue s @ [utterance],
       speakCalls := speakCalls s @ [u_text utterance]\<rparr>"

definition preferredVoiceNames :: "jsstring list" where
  "preferredVoiceNames =
     [js ''Google US English'', js ''Alex'', js ''Samantha'', js ''Daniel'',
      js ''Microsoft David - English (United States)'',
      js ''Microsoft Zira - English (United States)'']"

text \<open>Lines 31 to 71.\<close>

definition speak :: "closure \<Rightarrow> jsstring \<Rightarrow> app \<Rightarrow> app" where
  "speak c txt s =
     (let s1 = speechSynthesis_cancel s;
          selectedVoice =
            (case find (\<lambda>voice. voice_name voice \<in> set preferredVoiceNames) (c_voices c) of
               Some voice \<Rightarrow> Some voice
             | None \<Rightarrow> find (\<lambda>voice. take 5 (voice_lang voice) = js ''en-US'') (c_voices c));
          utterance = \<lparr>u_text = txt, u_voice = selectedVoice,
                       u_onend_isAssistantActive = c_isAssistantActive c\<rparr>
      in speechSynthesis_speak utterance s1)"

text \<open>The three callbacks of an utterance, lines 52 to 68.\<close>

definition utterance_onstart :: "app \<Rightarrow> app" where
  "utterance_onstart s = s\<lparr>isSpeakingRef := True, statusMessage := js ''Speaking...''\<rparr>"

definition utterance_onend :: "SpeechSynthesisUtterance \<Rightarrow> app \<Rightarrow> app" where
  "utterance_onend utterance s =
     s\<lparr>isSpeakingRef := False,
       statusMessage := (if u_onend_isAssistantActive utterance then js ''Listening...''
                         else js ''Assistant stopped.'')\<rparr>"

definition utterance_onerror :: "app \<Rightarrow> app" where
  "utterance_onerror s =
     s\<lparr>isSpeakingRef := False, error := Some (js ''A speech error occurred.'')\<rparr>"

subsection \<open>Camera Adapter\<close>

text \<open>Lines 73 to 81.\<close>

definition stopCamera :: "app \<Rightarrow> app" where
  "stopCamera s =
     (let s1 = (case mediaStreamRef s of
                  None \<Rightarrow> s
                | Some stream \<Rightarrow> s\<lparr>liveTracks := liveTracks s - {stream}, mediaStreamRef := None\<rparr>)
      in case videoRef s1 of
           None \<Rightarrow> s1
         | Some video \<Rightarrow> s1\<lparr>videoRef := Some (video\<lparr>srcObject := None\<rparr>)\<rparr>)"

text \<open>
  \<^verbatim>\<open>startCamera\<close>, lines 83 to 101, in three parts: up to the \<^verbatim>\<open>await\<close> of
  \<^verbatim>\<open>getUserMedia\<close>, its continuation with a stream, and its \<^verbatim>\<open>catch\<close> block.
\<close>

definition startCamera :: "closure \<Rightarrow> app \<Rightarrow> app" where
  "startCamera c s =
     (if mediaStreamRef s \<noteq> None then s
      else s\<lparr>statusMessage := js ''Starting camera...'',
             pendingGetUserMedia := pendingGetUserMedia s @ [c]\<rparr>)"

definition startCamera_resolved :: "closure \<Rightarrow> app \<Rightarrow> app" where
  "startCamera_resolved c s =
     (let stream = nextHandle s;
          s1 = s\<lparr>nextHandle := stream + 1, liveTracks := insert stream (liveTracks s)\<rparr>;
          s2 = s1\<lparr>mediaStreamRef := Some stream\<rparr>;
          s3 = (case videoRef s2 of
                  None \<Rightarrow> s2
                | Some video \<Rightarrow> s2\<lparr>videoRef := Some (video\<lparr>srcObject := Some stream\<rparr>)\<rparr>)
      in s3\<lparr>statusMessage := js ''Listening...''\<rparr>)"

definition startCamera_rejected :: "closure \<Rightarrow> js_exn \<Rightarrow> app \<Rightarrow> app" where
  "startCamera_rejected c err s =
     (let s1 = s\<lparr>error := Some (js ''Could not access the camera. Please check permissions.'')\<rparr>;
          s2 = speak c (js ''Error: Could not access the camera.'') s1
      in s2\<lparr>isAssistantActive := False\<rparr>)"

subsection \<open>The capture-analyze-speak cycle\<close>

text \<open>
  What the platform gives one invocation of \<^verbatim>\<open>processFrame\<close>: the dimensions of the video
  frame and the outcome of lines 136 to 140, where \<^verbatim>\<open>getContext\<close> returns no context, or
  drawing and encoding produce a data URL, or one of the canvas calls throws.
\<close>

datatype capture = NoContext | DataURL jsstring | Throws js_exn

record frame =
  videoWidth :: nat
  videoHeight :: nat
  capture :: capture

text \<open>The \<^verbatim>\<open>catch\<close> and \<^verbatim>\<open>finally\<close> blocks, lines 144 to 151.\<close>

definition processFrame_catch :: "closure \<Rightarrow> js_exn \<Rightarrow> app \<Rightarrow> app" where
  "processFrame_catch c err s =
     (let errorMessage = (case err of Error message \<Rightarrow> message
                          | Thrown \<Rightarrow> js ''An unknown error occurred.'');
          s1 = s\<lparr>error := Some (js ''Failed to process frame: '' @ errorMessage)\<rparr>
      in speak c (js ''Error: Failed to process the scene.'') s1)"

definition processFrame_finally :: "app \<Rightarrow> app" where
  "processFrame_finally s = s\<lparr>isProcessingRef := False\<rparr>"

text \<open>
  \<^verbatim>\<open>processFrame\<close> from its entry to its return or to the \<^verbatim>\<open>await\<close> of
  \<^verbatim>\<open>analyzeScene\<close>, lines 103 to 141. The call awaited is recorded with the closure
  of the invocation.
\<close>

definition processFrame :: "closure \<Rightarrow> frame \<Rightarrow> app \<Rightarrow> app" where
  "processFrame c fr s =
     (if isProcessingRef s \<or> isSpeakingRef s \<or> videoRef s = None \<or> canvasRef s = None then s
      else
        (let s1 = s\<lparr>isProcessingRef := True, statusMessage := js ''Analyzing scene...''\<rparr>;
             target = targetDimensions (videoWidth fr) (videoHeight fr);
             s2 = s1\<lparr>canvasRef := Some \<lparr>canvas_width = fst target, canvas_height = snd target\<rparr>\<rparr>
         in case capture fr of
              NoContext \<Rightarrow> processFrame_finally s2
            | Throws err \<Rightarrow> processFrame_finally (processFrame_catch c err s2)
            | DataURL base64ImageData \<Rightarrow>
                s2\<lparr>analyzeCalls := analyzeCalls s2 @ [base64ImageData],
                   pendingAnalyze := pendingAnalyze s2 @ [(c, base64ImageData)]\<rparr>))"

text \<open>
  The rest of an invocation, lines 141 to 151, once the promise of \<^verbatim>\<open>analyzeScene\<close> has
  settled: with \<open>Inr description\<close> when it resolved, with \<open>Inl err\<close> when it was rejected.
\<close>

definition processFrame_resume :: "closure \<Rightarrow> js_exn + jsstring \<Rightarrow> app \<Rightarrow> app" where
  "processFrame_resume c settled s =
     (case settled of
        Inr description \<Rightarrow> processFrame_finally (speak c description s)
      | Inl err \<Rightarrow> processFrame_finally (processFrame_catch c err s))"

subsection \<open>The effect that starts and stops the loop\<close>

definition clearInterval :: "nat \<Rightarrow> app \<Rightarrow> app" where
  "clearInterval h s = s\<lparr>intervals := intervals s - {h}\<rparr>"

text \<open>A timer handle is truthy unless it is the number 0.\<close>

definition truthy :: "nat option \<Rightarrow> bool" where
  "truthy r = (case r of None \<Rightarrow> False | Some h \<Rightarrow> h \<noteq> 0)"

text \<open>The branch of the effect for an active session, lines 156 and 157.\<close>

definition effect_start :: "app \<Rightarrow> app" where
  "effect_start s =
     (let s1 = startCamera (closure_of s) s;
          h = nextHandle s1
      in s1\<lparr>nextHandle := h + 1, intervals := insert h (intervals s1),
            processingIntervalRef := Some h\<rparr>)"

text \<open>The stop path: the branch of the effect for an inactive session, lines 159 to 167.\<close>

definition effect_stop :: "app \<Rightarrow> app" where
  "effect_stop s =
     (let s1 = stopCamera s;
          s2 = (if truthy (processingIntervalRef s1)
                then (clearInterval (the (processingIntervalRef s1)) s1)\<lparr>processingIntervalRef := None\<rparr>
                else s1);
          s3 = speechSynthesis_cancel s2
      in s3\<lparr>isProcessingRef := False, isSpeakingRef := False,
            statusMessage := js ''Tap screen to begin''\<rparr>)"

definition useEffect_body :: "app \<Rightarrow> app" where
  "useEffect_body s = (if isAssistantActive s then effect_start s else effect_stop s)"

text \<open>The cleanup of the effect, lines 170 to 176.\<close>

definition useEffect_cleanup :: "app \<Rightarrow> app" where
  "useEffect_cleanup s =
     (let s1 = stopCamera s;
          s2 = (if truthy (processingIntervalRef s1)
                then clearInterval (the (processingIntervalRef s1)) s1
                else s1)
      in speechSynthesis_cancel s2)"

text \<open>
  The effect depends on \<^verbatim>\<open>isAssistantActive\<close> and on the callbacks, which change with
  \<^verbatim>\<open>isAssistantActive\<close> and \<^verbatim>\<open>voices\<close>. When one of the two has changed, React runs
  the cleanup of the previous run and then the effect again.
\<close>

definition rerender :: "app \<Rightarrow> app" where
  "rerender s = useEffect_body (useEffect_cleanup s)"

text \<open>Lines 179 to 185 and lines 21 to 23.\<close>

definition handleToggleAssistant :: "app \<Rightarrow> app" where
  "handleToggleAssistant s =
     (let s1 = s\<lparr>error := None\<rparr>;
          s2 = (if \<not> isAssistantActive s1 then speak (closure_of s1) (js ''Starting assistant.'') s1
                else s1)
      in s2\<lparr>isAssistantActive := \<not> isAssistantActive s2\<rparr>)"

definition loadVoices :: "SpeechSynthesisVoice list \<Rightarrow> app \<Rightarrow> app" where
  "loadVoices vs s = s\<lparr>voices := vs\<rparr>"

subsection \<open>The event loop\<close>

text \<open>
  The program runs one event at a time: a tap on the toggle, a change of the voice list,
  the settling of \<^verbatim>\<open>getUserMedia\<close>, a tick of the interval timer, the settling of the
  remote call of the oldest pending \<^verbatim>\<open>analyzeScene\<close>, and the callbacks of the utterance
  at the head of the speech queue. A handler that changes \<^verbatim>\<open>isAssistantActive\<close> or
  \<^verbatim>\<open>voices\<close> is followed by the effect, so the timer always calls the
  \<^verbatim>\<open>processFrame\<close> of the latest render, whose closure holds the current values. The
  callbacks of an utterance that \<^verbatim>\<open>cancel\<close> removed are not delivered.
\<close>

datatype event =
    Toggle
  | VoicesChanged "SpeechSynthesisVoice list"
  | GetUserMediaResolved
  | GetUserMediaRejected js_exn
  | Tick frame
  | AnalyzeSettled "inlineData \<Rightarrow> generateContentResult"
  | UtteranceStart
  | UtteranceEnd
  | UtteranceError

fun step :: "event \<Rightarrow> app \<Rightarrow> app" where
  "step Toggle s = rerender (handleToggleAssistant s)"
| "step (VoicesChanged vs) s = rerender (loadVoices vs s)"
| "step GetUserMediaResolved s =
     (case pendingGetUserMedia s of
        [] \<Rightarrow> s
      | c # cs \<Rightarrow> startCamera_resolved c (s\<lparr>pendingGetUserMedia := cs\<rparr>))"
| "step (GetUserMediaRejected err) s =
     (case pendingGetUserMedia s of
        [] \<Rightarrow> s
      | c # cs \<Rightarrow>
          (let s1 = startCamera_rejected c err (s\<lparr>pendingGetUserMedia := cs\<rparr>)
           in if isAssistantActive s then rerender s1 else s1))"
| "step (Tick fr) s =
     (if intervals s = {} then s else processFrame (closure_of s) fr s)"
| "step (AnalyzeSettled generateContent) s =
     (case pendingAnalyze s of
        [] \<Rightarrow> s
      | (c, base64ImageData) # rest \<Rightarrow>
          processFrame_resume c (analyzeScene generateContent base64ImageData)
            (s\<lparr>pendingAnalyze := rest\<rparr>))"
| "step UtteranceStart s =
     (case speechQueue s of [] \<Rightarrow> s | utterance # rest \<Rightarrow> utterance_onstart s)"
| "step UtteranceEnd s =
     (case speechQueue s of
        [] \<Rightarrow> s
      | utterance # rest \<Rightarrow> utterance_onend utterance (s\<lparr>speechQueue := rest\<rparr>))"
| "step UtteranceError s =
     (case speechQueue s of
        [] \<Rightarrow> s
      | utterance # rest \<Rightarrow> utterance_onerror (s\<lparr>speechQueue := rest\<rparr>))"

fun run :: "event list \<Rightarrow> app \<Rightarrow> app" where
  "run [] s = s"
| "run (e # es) s = run es (step e s)"

text \<open>The state after mounting: the effect has run once on the initial render.\<close>

definition mounted :: app where
  "mounted = useEffect_body init"

subsection \<open>Runs of the loop\<close>

text \<open>
  No second call of \<^verbatim>\<open>analyzeScene\<close> can start while one is pending and the in-progress
  flag is set: a state is \<open>exclusive\<close> when no call is pending, or exactly one is and the
  flag is set.
\<close>

definition exclusive :: "app \<Rightarrow> bool" where
  "exclusive s = (pendingAnalyze s = [] \<or> (isProcessingRef s \<and> length (pendingAnalyze s) = 1))"

text \<open>The session is active after each event of a run.\<close>

fun active_throughout :: "event list \<Rightarrow> app \<Rightarrow> bool" where
  "active_throughout [] s = True"
| "active_throughout (e # es) s =
     (isAssistantActive (step e s) \<and> active_throughout es (step e s))"

text \<open>
  A state is quiescent when nothing is left for the stop path to do: no stream is held and
  the video element shows none, no timer handle is held, the speech queue is empty, both
  flags are clear and the status message is the idle one.
\<close>

definition quiescent :: "app \<Rightarrow> bool" where
  "quiescent s =
     (mediaStreamRef s = None
      \<and> (case videoRef s of None \<Rightarrow> True | Some video \<Rightarrow> srcObject video = None)
      \<and> \<not> truthy (processingIntervalRef s)
      \<and> speechQueue s = []
      \<and> \<not> isProcessingRef s
      \<and> \<not> isSpeakingRef s
      \<and> statusMessage s = js ''Tap screen to begin'')"


text \<open>A frame, two behaviours of the remote call, and a session that is listening.\<close>

definition example_image :: jsstring where
  "example_image = js ''data:image/jpeg;base64,AAAA''"

definition example_frame :: frame where
  "example_frame = \<lparr>videoWidth = 320, videoHeight = 240, capture = DataURL example_image\<rparr>"

definition example_response :: "inlineData \<Rightarrow> generateContentResult" where
  "example_response imagePart = Resolved (Some (js ''Stop. Curb ahead.''))"

definition example_failure :: "inlineData \<Rightarrow> generateContentResult" where
  "example_failure imagePart = Rejected (Error (js ''Failed to fetch''))"

definition listening :: app where
  "listening = run [Toggle, GetUserMediaResolved] mounted"

text \<open>
  A session that is started and stopped again before the camera is granted, and the grant
  arriving afterwards.
\<close>

definition late_camera_grant :: app where
  "late_camera_grant = run [Toggle, Toggle, GetUserMediaResolved] mounted"

section \<open>Rounding to binary64\<close>

lemma pow2_powi: "pow2 e = 2 powi e"
  by (simp add: pow2_def power_int_def field_simps)

lemma pow2_pos: "0 < pow2 e"
  by (simp add: pow2_powi)

lemma pow2_add: "pow2 (a + b) = pow2 a * pow2 b"
  by (simp add: pow2_powi power_int_add)

lemma pow2_nat: "pow2 (int n) = 2 ^ n"
  by (simp add: pow2_def)

lemma pow2_diff: "pow2 (a - b) = pow2 a / pow2 b"
  by (simp add: pow2_powi power_int_diff)

lemma binade_le:
  assumes "0 < x"
  shows "pow2 (binade x) \<le> x"
proof -
  obtain p q where pq: "quotient_of x = (p, q)"
    by (cases "quotient_of x")
  have q: "0 < q" using pq by (rule quotient_of_denom_pos)
  have x: "x = of_int p / of_int q" using pq by (rule quotient_of_div)
  have p: "0 < p" using assms q x by (simp add: zero_less_divide_iff)
  let ?d = "bitlen p - bitlen q"
  show ?thesis
  proof (cases "pow2 ?d \<le> x")
    case True
    then show ?thesis by (simp add: binade_def pq Let_def)
  next
    case False
    have bp: "1 \<le> bitlen p" using p bitlen_nonneg [of p] bitlen_eq_zero_iff [of p] by linarith
    have bq: "1 \<le> bitlen q" using q bitlen_nonneg [of q] bitlen_eq_zero_iff [of q] by linarith
    have lo: "(2::int) ^ nat (bitlen p - 1) \<le> p" using bitlen_bounds [OF p] by simp
    have hi: "q < (2::int) ^ nat (bitlen q)" using bitlen_bounds [OF q] by simp
    have lo': "pow2 (bitlen p - 1) \<le> of_int p"
    proof -
      have "(of_int ((2::int) ^ nat (bitlen p - 1)) :: rat) \<le> of_int p"
        using lo by (simp only: of_int_le_iff)
      then show ?thesis using bp by (simp add: pow2_def)
    qed
    have hi': "of_int q \<le> pow2 (bitlen q)"
    proof -
      have "(of_int q :: rat) \<le> of_int ((2::int) ^ nat (bitlen q))"
        using hi by (simp only: of_int_le_iff)
      then show ?thesis using bq by (simp add: pow2_def)
    qed
    have "pow2 (?d - 1) = pow2 (bitlen p - 1) / pow2 (bitlen q)"
      by (simp add: pow2_diff [symmetric] algebra_simps)
    also have "\<dots> \<le> of_int p / pow2 (bitlen q)"
      using lo' pow2_pos [of "bitlen q"] by (simp add: divide_right_mono)
    also have "\<dots> \<le> of_int p / of_int q"
      using hi' p q by (simp add: divide_left_mono)
    finally have "pow2 (?d - 1) \<le> x" by (simp add: x)
    with False show ?thesis by (simp add: binade_def pq Let_def)
  qed
qed

lemma binade_less:
  assumes "0 < x"
  shows "x < pow2 (binade x + 1)"
proof -
  obtain p q where pq: "quotient_of x = (p, q)"
    by (cases "quotient_of x")
  have q: "0 < q" using pq by (rule quotient_of_denom_pos)
  have x: "x = of_int p / of_int q" using pq by (rule quotient_of_div)
  have p: "0 < p" using assms q x by (simp add: zero_less_divide_iff)
  let ?d = "bitlen p - bitlen q"
  show ?thesis
  proof (cases "pow2 ?d \<le> x")
    case False
    then show ?thesis by (simp add: binade_def pq Let_def)
  next
    case True
    have bp: "1 \<le> bitlen p" using p bitlen_nonneg [of p] bitlen_eq_zero_iff [of p] by linarith
    have bq: "1 \<le> bitlen q" using q bitlen_nonneg [of q] bitlen_eq_zero_iff [of q] by linarith
    have hi: "p < (2::int) ^ nat (bitlen p)" using bitlen_bounds [OF p] by simp
    have lo: "(2::int) ^ nat (bitlen q - 1) \<le> q" using bitlen_bounds [OF q] by simp
    have hi': "of_int p < pow2 (bitlen p)"
    proof -
      have "(of_int p :: rat) < of_int ((2::int) ^ nat (bitlen p))"
        using hi by (simp only: of_int_less_iff)
      then show ?thesis using bp by (simp add: pow2_def)
    qed
    have lo': "pow2 (bitlen q - 1) \<le> of_int q"
    proof -
      have "(of_int ((2::int) ^ nat (bitlen q - 1)) :: rat) \<le> of_int q"
        using lo by (simp only: of_int_le_iff)
      then show ?thesis using bq by (simp add: pow2_def)
    qed
    have "x = of_int p / of_int q" by (rule x)
    also have "\<dots> < pow2 (bitlen p) / of_int q"
      using hi' q by (simp add: divide_strict_right_mono)
    also have "\<dots> \<le> pow2 (bitlen p) / pow2 (bitlen q - 1)"
      using lo' pow2_pos [of "bitlen q - 1"] pow2_pos [of "bitlen p"]
      by (simp add: divide_left_mono)
    also have "\<dots> = pow2 (?d + 1)"
      by (simp add: pow2_diff [symmetric] algebra_simps)
    finally show ?thesis using True by (simp add: binade_def pq Let_def)
  qed
qed

lemma round_ties_even_error: "\<bar>of_int (round_ties_even y) - y\<bar> \<le> 1 / 2"
proof -
  have "of_int \<lfloor>y\<rfloor> \<le> y" "y < of_int \<lfloor>y\<rfloor> + 1" by linarith+
  then show ?thesis
    by (auto simp: round_ties_even_def Let_def abs_le_iff)
qed

lemma fl_error:
  assumes "0 < x"
  shows "\<bar>fl x - x\<bar> \<le> x / 2 ^ 53"
proof -
  define u where "u = pow2 (binade x - 52)"
  have u: "0 < u" by (simp add: u_def pow2_pos)
  have ux: "u * 2 ^ 52 \<le> x"
  proof -
    have "pow2 52 = 2 ^ 52" using pow2_nat [of 52] by simp
    then have "u * 2 ^ 52 = pow2 (binade x - 52) * pow2 52" by (simp add: u_def)
    also have "\<dots> = pow2 (binade x - 52 + 52)" by (simp only: pow2_add)
    finally show ?thesis using binade_le [OF assms] by simp
  qed
  have fl: "fl x = of_int (round_ties_even (x / u)) * u"
    using assms by (simp add: fl_def u_def Let_def)
  have "fl x - x = (of_int (round_ties_even (x / u)) - x / u) * u"
    using u by (simp add: fl left_diff_distrib)
  then have "\<bar>fl x - x\<bar> = \<bar>of_int (round_ties_even (x / u)) - x / u\<bar> * \<bar>u\<bar>"
    by (simp only: abs_mult)
  also have "\<dots> = \<bar>of_int (round_ties_even (x / u)) - x / u\<bar> * u"
    using u by simp
  also have "\<dots> \<le> 1 / 2 * u"
    using round_ties_even_error [of "x / u"] u by (simp add: mult_right_mono)
  also have "\<dots> \<le> x / 2 ^ 53"
    using ux by (simp add: field_simps)
  finally show ?thesis .
qed

lemma fl_nonneg: "0 \<le> x \<Longrightarrow> 0 \<le> fl x"
proof (cases "x = 0")
  case True
  then show ?thesis by (simp add: fl_def)
next
  case False
  assume "0 \<le> x"
  with False have x: "0 < x" by simp
  have "x / 2 ^ 53 \<le> x" using x by (simp add: field_simps)
  with fl_error [OF x] show ?thesis by linarith
qed


lemma fl_error0: "0 \<le> x \<Longrightarrow> \<bar>fl x - x\<bar> \<le> x / 2 ^ 53"
  using fl_error [of x] by (cases "x = 0") (simp_all add: fl_def)

lemma Math_round_bounds:
  "of_int (Math_round p) \<le> p + 1 / 2" "p - 1 / 2 < of_int (Math_round p)"
  unfolding Math_round_def by linarith+

lemma scaled_edge:
  fixes a b :: nat
  assumes ab: "a \<le> b" and b0: "0 < b" and b32: "b < 2 ^ 32"
  defines "r \<equiv> Math_round (fl (fl (480 / of_nat b) * of_nat a))"
  shows "0 \<le> r \<and> r \<le> 480 \<and> \<bar>of_int r - 480 * of_nat a / of_nat b\<bar> \<le> (1 / 2 :: rat)"
proof -
  define A :: rat where "A = of_nat a"
  define B :: rat where "B = of_nat b"
  define x where "x = 480 * A / B"
  define q where "q = fl (480 / B)"
  define y where "y = q * A"
  define p where "p = fl y"
  define d :: rat where "d = 1440 / 2 ^ 53"
  have A: "0 \<le> A" and B: "0 < B" and AB: "A \<le> B"
    using ab b0 by (simp_all add: A_def B_def)
  have B32: "B < 2 ^ 32"
  proof -
    have "(of_nat b :: rat) < of_nat (2 ^ 32)" using b32 by (simp only: of_nat_less_iff)
    then show ?thesis by (simp add: B_def)
  qed
  have x0: "0 \<le> x" using A B by (simp add: x_def)
  have x480: "x \<le> 480" using AB B by (simp add: x_def field_simps)
  have q0: "0 \<le> q" unfolding q_def using B by (intro fl_nonneg) simp
  have y0: "0 \<le> y" using q0 A by (simp add: y_def)
  have p0: "0 \<le> p" unfolding p_def using y0 by (rule fl_nonneg)
  have "\<bar>q - 480 / B\<bar> \<le> 480 / B / 2 ^ 53"
    unfolding q_def using B by (intro fl_error) simp
  then have "\<bar>q - 480 / B\<bar> * A \<le> 480 / B / 2 ^ 53 * A"
    using A by (rule mult_right_mono)
  moreover have "\<bar>y - x\<bar> = \<bar>q - 480 / B\<bar> * A"
  proof -
    have "y - x = (q - 480 / B) * A" by (simp add: y_def x_def left_diff_distrib)
    then have "\<bar>y - x\<bar> = \<bar>q - 480 / B\<bar> * \<bar>A\<bar>" by (simp only: abs_mult)
    then show ?thesis using A by simp
  qed
  moreover have "480 / B / 2 ^ 53 * A = x / 2 ^ 53" by (simp add: x_def)
  ultimately have yx: "\<bar>y - x\<bar> \<le> x / 2 ^ 53" by simp
  have py: "\<bar>p - y\<bar> \<le> y / 2 ^ 53" unfolding p_def using y0 by (rule fl_error0)
  have "x / 2 ^ 53 \<le> x" using x0 by (simp add: field_simps)
  with yx have "y \<le> 2 * x" by linarith
  then have "y / 2 ^ 53 \<le> 2 * (x / 2 ^ 53)" by (simp add: divide_right_mono)
  with py yx have "\<bar>p - x\<bar> \<le> 3 * (x / 2 ^ 53)" by linarith
  also have "\<dots> \<le> d" using x480 by (simp add: d_def)
  finally have px: "\<bar>p - x\<bar> \<le> d" .
  have r1: "of_int r \<le> p + 1 / 2" and r2: "p - 1 / 2 < of_int r"
    unfolding r_def p_def y_def q_def A_def B_def by (rule Math_round_bounds)+
  have r0: "0 \<le> r"
  proof -
    have "(-1 :: rat) < of_int r" using r2 p0 by linarith
    then have "(of_int (-1) :: rat) < of_int r" by simp
    then have "-1 < r" by (simp only: of_int_less_iff)
    then show ?thesis by simp
  qed
  have rx: "\<bar>of_int r - x\<bar> \<le> 1 / 2 + d"
    using r1 r2 px by linarith
  define N where "N = r * int b - 480 * int a"
  have N: "of_int N = (of_int r - x) * B"
    using B by (simp add: N_def x_def A_def B_def left_diff_distrib)
  have "\<bar>(of_int N :: rat)\<bar> = \<bar>of_int r - x\<bar> * B"
  proof -
    have "\<bar>(of_int N :: rat)\<bar> = \<bar>of_int r - x\<bar> * \<bar>B\<bar>" by (simp only: N abs_mult)
    then show ?thesis using B by simp
  qed
  also have "\<dots> \<le> (1 / 2 + d) * B"
    using rx B by (simp only: mult_right_mono less_imp_le)
  finally have "2 * \<bar>(of_int N :: rat)\<bar> \<le> B + 2 * (d * B)"
    by (simp add: algebra_simps)
  moreover have "2 * (d * B) < 1" using B32 by (simp add: d_def)
  ultimately have "2 * \<bar>(of_int N :: rat)\<bar> < B + 1" by linarith
  then have "(of_int (2 * \<bar>N\<bar>) :: rat) < of_int (int b + 1)" by (simp add: B_def)
  then have "2 * \<bar>N\<bar> < int b + 1" by (simp only: of_int_less_iff)
  then have "2 * \<bar>N\<bar> \<le> int b" by simp
  then have "(of_int (2 * \<bar>N\<bar>) :: rat) \<le> of_int (int b)" by (simp only: of_int_le_iff)
  then have "2 * \<bar>(of_int N :: rat)\<bar> \<le> B" by (simp add: B_def)
  then have "2 * (\<bar>of_int r - x\<bar> * \<bar>B\<bar>) \<le> B" by (simp only: N abs_mult)
  then have half: "\<bar>of_int r - x\<bar> \<le> 1 / 2" using B by (simp add: field_simps)
  have "of_int r \<le> x + 1 / 2" using half by linarith
  with x480 have "(of_int r :: rat) < 481" by linarith
  then have "(of_int r :: rat) < of_int 481" by simp
  then have "r < 481" by (simp only: of_int_less_iff)
  with r0 half show ?thesis by (simp add: x_def A_def B_def)
qed


section \<open>Frame Sampler\<close>

lemma scaled_edge_nat:
  fixes a b :: nat
  assumes "a \<le> b" "0 < b" "b < 2 ^ 32"
  defines "t \<equiv> nat (Math_round (fl (fl (of_nat MAX_DIMENSION / of_nat b) * of_nat a)))"
  shows "t \<le> MAX_DIMENSION"
    and "\<bar>of_nat t - of_nat MAX_DIMENSION * of_nat a / of_nat b\<bar> \<le> (1 / 2 :: rat)"
proof -
  let ?r = "Math_round (fl (fl (480 / of_nat b) * of_nat a))"
  have r: "0 \<le> ?r \<and> ?r \<le> 480 \<and> \<bar>of_int ?r - 480 * of_nat a / of_nat b\<bar> \<le> (1 / 2 :: rat)"
    using assms(1-3) by (rule scaled_edge)
  have r0: "0 \<le> ?r" and r480: "?r \<le> 480"
    and half: "\<bar>of_int ?r - 480 * of_nat a / of_nat b\<bar> \<le> (1 / 2 :: rat)"
    using r by blast+
  have t: "t = nat ?r" by (simp add: t_def MAX_DIMENSION_def)
  from r480 have "nat ?r \<le> 480" by linarith
  then show "t \<le> MAX_DIMENSION" by (simp only: t MAX_DIMENSION_def)
  have "(of_nat t :: rat) = of_int ?r" using r0 by (simp add: t)
  with half show "\<bar>of_nat t - of_nat MAX_DIMENSION * of_nat a / of_nat b\<bar> \<le> (1 / 2 :: rat)"
    by (simp only: MAX_DIMENSION_def of_nat_numeral)
qed

text \<open>
  Claim C2. For every frame of width \<open>w\<close> and height \<open>h\<close> (32-bit unsigned integers, as
  \<^verbatim>\<open>videoWidth\<close> and \<^verbatim>\<open>videoHeight\<close> are), the target dimensions have a long edge of at
  most \<open>MAX_DIMENSION = 480\<close>; they are \<open>(w, h)\<close> itself whenever the long edge of the frame
  does not exceed the maximum; and otherwise the long edge becomes 480 and the short edge
  is within one half of the exactly scaled value \<open>480 * short / long\<close>, which is the aspect
  ratio preserved up to rounding to an integer.
\<close>

theorem frame_sampler_target_dimensions:
  fixes w h :: nat
  assumes w: "w < 2 ^ 32" and h: "h < 2 ^ 32"
  shows "max (fst (targetDimensions w h)) (snd (targetDimensions w h)) \<le> MAX_DIMENSION
    \<and> (max w h \<le> MAX_DIMENSION \<longrightarrow> targetDimensions w h = (w, h))
    \<and> (h < w \<and> MAX_DIMENSION < w \<longrightarrow>
         fst (targetDimensions w h) = MAX_DIMENSION
         \<and> \<bar>of_nat (snd (targetDimensions w h)) - of_nat MAX_DIMENSION * of_nat h / of_nat w\<bar>
             \<le> (1 / 2 :: rat))
    \<and> (w \<le> h \<and> MAX_DIMENSION < h \<longrightarrow>
         snd (targetDimensions w h) = MAX_DIMENSION
         \<and> \<bar>of_nat (fst (targetDimensions w h)) - of_nat MAX_DIMENSION * of_nat w / of_nat h\<bar>
             \<le> (1 / 2 :: rat))"
proof (cases "h < w")
  case True
  show ?thesis
  proof (cases "MAX_DIMENSION < w")
    case wide: True
    have "h \<le> w" "0 < w" using True by simp_all
    from scaled_edge_nat [OF this w] True wide show ?thesis
      by (simp add: targetDimensions_def)
  next
    case False
    with True show ?thesis by (simp add: targetDimensions_def)
  qed
next
  case False
  show ?thesis
  proof (cases "MAX_DIMENSION < h")
    case tall: True
    have "w \<le> h" "0 < h" using False tall by simp_all
    from scaled_edge_nat [OF this h] False tall show ?thesis
      by (simp add: targetDimensions_def)
  next
    case False
    with \<open>\<not> h < w\<close> show ?thesis by (simp add: targetDimensions_def)
  qed
qed

theorem frame_sampler_target_dimensions_witness:
  "(1920 :: nat) < 2 ^ 32 \<and> (1080 :: nat) < 2 ^ 32
   \<and> targetDimensions 1920 1080 = (480, 270)
   \<and> max (fst (targetDimensions 1920 1080)) (snd (targetDimensions 1920 1080)) \<le> MAX_DIMENSION
   \<and> \<bar>of_nat (snd (targetDimensions 1920 1080)) - of_nat MAX_DIMENSION * 1080 / 1920\<bar>
       \<le> (1 / 2 :: rat)"
proof -
  have e: "targetDimensions 1920 1080 = (480, 270)"
    unfolding targetDimensions_def MAX_DIMENSION_def
    apply simp
    apply code_simp
    done
  have b: "(1920 :: nat) < 2 ^ 32" "(1080 :: nat) < 2 ^ 32" by simp_all
  from frame_sampler_target_dimensions [OF b] e show ?thesis
    by (simp add: MAX_DIMENSION_def)
qed

text \<open>
  The rounding of binary64 is visible in the result. For a frame of 704 by 11 the exact
  value of \<open>480 / 704 * 11\<close> is \<open>7.5\<close>, which \<^verbatim>\<open>Math.round\<close> would take to 8; the
  quotient \<open>480 / 704\<close> is rounded down, the product is just below \<open>7.5\<close>, and the target
  height is 7.
\<close>

lemma targetDimensions_tie: "targetDimensions 704 11 = (480, 7)"
  unfolding targetDimensions_def MAX_DIMENSION_def
  apply simp
  apply code_simp
  done

section \<open>Evaluation\<close>

lemmas speech_defs = speak_def speechSynthesis_cancel_def speechSynthesis_speak_def
  utterance_onstart_def utterance_onend_def utterance_onerror_def

lemmas camera_defs = stopCamera_def startCamera_def startCamera_resolved_def
  startCamera_rejected_def

lemmas cycle_defs = processFrame_def processFrame_resume_def processFrame_catch_def
  processFrame_finally_def

lemmas effect_defs = clearInterval_def truthy_def effect_start_def effect_stop_def
  useEffect_body_def useEffect_cleanup_def rerender_def handleToggleAssistant_def
  loadVoices_def closure_of_def

lemma js_Nil_iff [simp]: "js t = [] \<longleftrightarrow> t = []"
  by (simp add: js_def)

lemma backtrack_numeral:
  "backtrack (numeral k) r =
     (if take 8 (drop (numeral k) r) = js '';base64,'' \<and> drop (numeral k + 8) r \<noteq> []
      then Some (take (numeral k) r, drop (numeral k + 8) r)
      else backtrack (pred_numeral k) r)"
  by (simp add: numeral_eq_Suc)

lemma example_part:
  "fileToGenerativePart example_image = Inr \<lparr>mimeType = js ''image/jpeg'', data = js ''AAAA''\<rparr>"
  by (simp add: fileToGenerativePart_def dataUrlMatch_def example_image_def js_def
      lineTerminator_def backtrack_numeral)

lemma mounted_eq: "mounted = init"
  by (simp add: mounted_def init_def effect_defs speech_defs camera_defs)

lemma listening_eq:
  "listening = init\<lparr>isAssistantActive := True, statusMessage := js ''Listening...'',
     videoRef := Some \<lparr>srcObject = Some 2\<rparr>, mediaStreamRef := Some 2,
     processingIntervalRef := Some 1, liveTracks := {2}, intervals := {1}, nextHandle := 3,
     speakCalls := [js ''Starting assistant.'']\<rparr>"
  by (simp add: listening_def mounted_eq init_def effect_defs speech_defs camera_defs)


lemma listening_speakCalls: "speakCalls listening = [js ''Starting assistant.'']"
  by (simp add: listening_eq init_def)

section \<open>Scene Analyzer\<close>

lemma analyzeScene_cases:
  "analyzeScene generateContent x =
     (case fileToGenerativePart x of
        Inl e \<Rightarrow> Inr (js ''Error analyzing.'')
      | Inr imagePart \<Rightarrow>
          (case generateContent imagePart of
             Rejected e \<Rightarrow> Inr (js ''Error analyzing.'')
           | Resolved None \<Rightarrow> Inr (js ''No clear view.'')
           | Resolved (Some t) \<Rightarrow> Inr (if t = [] then js ''No clear view.'' else t)))"
  by (simp add: analyzeScene_def analyzeScene_try_def
      split: sum.splits generateContentResult.splits option.splits)

lemma analyzeScene_failure:
  "analyzeScene_try generateContent x = Inl e \<Longrightarrow>
   analyzeScene generateContent x = Inr (js ''Error analyzing.'')"
  by (simp add: analyzeScene_def)

lemma speak_calls [simp]: "speakCalls (speak c txt s) = speakCalls s @ [txt]"
  by (simp add: speech_defs Let_def)

lemma speak_queue [simp]: "map u_text (speechQueue (speak c txt s)) = [txt]"
  by (simp add: speech_defs Let_def)

lemma resume_resolved:
  "processFrame_resume c (Inr description) s = processFrame_finally (speak c description s)"
  by (simp add: processFrame_resume_def)

text \<open>
  Claim C5. When the remote call succeeds and the text of its response is missing
  (\<open>None\<close>) or empty, \<^verbatim>\<open>analyzeScene\<close> resolves to the fixed phrase
  \<^verbatim>\<open>No clear view.\<close>, which is not the empty string, and the invocation of
  \<^verbatim>\<open>processFrame\<close> that awaited it hands exactly that phrase to \<^verbatim>\<open>speak\<close>: it is the
  text of the one utterance then in the speech queue.
\<close>

theorem analyzeScene_empty_text_fallback:
  assumes "fileToGenerativePart base64ImageData = Inr imagePart"
    and "generateContent imagePart = Resolved text"
    and "text = None \<or> text = Some []"
  shows "analyzeScene generateContent base64ImageData = Inr (js ''No clear view.'')
    \<and> js ''No clear view.'' \<noteq> []
    \<and> speakCalls (processFrame_resume c (analyzeScene generateContent base64ImageData) s)
        = speakCalls s @ [js ''No clear view.'']
    \<and> map u_text (speechQueue (processFrame_resume c (analyzeScene generateContent base64ImageData) s))
        = [js ''No clear view.'']"
proof -
  have "analyzeScene generateContent base64ImageData = Inr (js ''No clear view.'')"
    using assms by (auto simp: analyzeScene_cases)
  then show ?thesis
    by (simp add: resume_resolved processFrame_finally_def)
qed

theorem analyzeScene_empty_text_fallback_witness:
  "fileToGenerativePart example_image = Inr \<lparr>mimeType = js ''image/jpeg'', data = js ''AAAA''\<rparr>
   \<and> analyzeScene (\<lambda>imagePart. Resolved (Some [])) example_image = Inr (js ''No clear view.'')
   \<and> speakCalls (processFrame_resume (closure_of listening)
         (analyzeScene (\<lambda>imagePart. Resolved (Some [])) example_image) listening)
       = [js ''Starting assistant.'', js ''No clear view.'']"
proof -
  have r: "(\<lambda>imagePart. Resolved (Some [])) \<lparr>mimeType = js ''image/jpeg'', data = js ''AAAA''\<rparr>
      = Resolved (Some [])"
    by simp
  have e: "(Some [] :: jsstring option) = None \<or> (Some [] :: jsstring option) = Some []"
    by simp
  note t = analyzeScene_empty_text_fallback [OF example_part r e,
      where c = "closure_of listening" and s = listening]
  from t have a: "analyzeScene (\<lambda>imagePart. Resolved (Some [])) example_image
      = Inr (js ''No clear view.'')"
    by (rule conjunct1)
  from t have "speakCalls (processFrame_resume (closure_of listening)
         (analyzeScene (\<lambda>imagePart. Resolved (Some [])) example_image) listening)
       = speakCalls listening @ [js ''No clear view.'']"
    by blast
  then have b: "speakCalls (processFrame_resume (closure_of listening)
         (analyzeScene (\<lambda>imagePart. Resolved (Some [])) example_image) listening)
       = [js ''Starting assistant.'', js ''No clear view.'']"
    by (simp only: listening_speakCalls append.simps)
  from example_part a b show ?thesis by blast
qed

text \<open>
  Claim C9. For every input string, a valid data URL or not, and every way the remote call
  settles, the promise of \<^verbatim>\<open>analyzeScene\<close> is never rejected: it resolves to a non-empty
  string, which is the text of the response, \<^verbatim>\<open>No clear view.\<close> or
  \<^verbatim>\<open>Error analyzing.\<close>. So the invocation of \<^verbatim>\<open>processFrame\<close> that awaited it continues
  with \<^verbatim>\<open>speak\<close> and \<^verbatim>\<open>finally\<close>, never with its \<^verbatim>\<open>catch\<close> block, and leaves the
  error state as it was.
\<close>

theorem analyzeScene_total:
  "\<exists>description.
     analyzeScene generateContent base64ImageData = Inr description
     \<and> description \<noteq> []
     \<and> (description = js ''No clear view.'' \<or> description = js ''Error analyzing.''
        \<or> (\<exists>imagePart. fileToGenerativePart base64ImageData = Inr imagePart
              \<and> generateContent imagePart = Resolved (Some description)))
     \<and> processFrame_resume c (analyzeScene generateContent base64ImageData) s
        = processFrame_finally (speak c description s)
     \<and> error (processFrame_resume c (analyzeScene generateContent base64ImageData) s) = error s"
  by (auto simp: analyzeScene_cases resume_resolved processFrame_finally_def speech_defs Let_def
      split: sum.splits generateContentResult.splits option.splits)

theorem analyzeScene_total_witness:
  "fileToGenerativePart (js ''not a data URL'') = Inl (Error (js ''Invalid base64 data URL format''))
   \<and> analyzeScene example_failure (js ''not a data URL'') = Inr (js ''Error analyzing.'')
   \<and> (\<exists>description. analyzeScene example_failure (js ''not a data URL'') = Inr description
         \<and> description \<noteq> [])"
proof -
  have "fileToGenerativePart (js ''not a data URL'') = Inl (Error (js ''Invalid base64 data URL format''))"
    by (simp add: fileToGenerativePart_def dataUrlMatch_def js_def)
  moreover from this have "analyzeScene example_failure (js ''not a data URL'') = Inr (js ''Error analyzing.'')"
    by (simp add: analyzeScene_cases)
  moreover have "\<exists>description. analyzeScene example_failure (js ''not a data URL'') = Inr description
         \<and> description \<noteq> []"
    using analyzeScene_total [of example_failure "js ''not a data URL''" "closure_of init" init]
    by blast
  ultimately show ?thesis by blast
qed

section \<open>The handlers as single updates\<close>

lemma stopCamera_eq:
  "stopCamera s =
     s\<lparr>liveTracks := (case mediaStreamRef s of None \<Rightarrow> liveTracks s
                       | Some stream \<Rightarrow> liveTracks s - {stream}),
       mediaStreamRef := None,
       videoRef := map_option (\<lambda>video. video\<lparr>srcObject := None\<rparr>) (videoRef s)\<rparr>"
  by (cases "mediaStreamRef s"; cases "videoRef s") (simp_all add: stopCamera_def)

lemma speak_eq:
  "speak c txt s =
     s\<lparr>speechQueue :=
         [\<lparr>u_text = txt,
           u_voice = (case find (\<lambda>voice. voice_name voice \<in> set preferredVoiceNames) (c_voices c) of
                        Some voice \<Rightarrow> Some voice
                      | None \<Rightarrow> find (\<lambda>voice. take 5 (voice_lang voice) = js ''en-US'') (c_voices c)),
           u_onend_isAssistantActive = c_isAssistantActive c\<rparr>],
       speakCalls := speakCalls s @ [txt]\<rparr>"
  by (simp add: speak_def speechSynthesis_cancel_def speechSynthesis_speak_def Let_def)

lemma useEffect_cleanup_eq:
  "useEffect_cleanup s =
     s\<lparr>liveTracks := (case mediaStreamRef s of None \<Rightarrow> liveTracks s
                       | Some stream \<Rightarrow> liveTracks s - {stream}),
       mediaStreamRef := None,
       videoRef := map_option (\<lambda>video. video\<lparr>srcObject := None\<rparr>) (videoRef s),
       intervals := (if truthy (processingIntervalRef s)
                     then intervals s - {the (processingIntervalRef s)} else intervals s),
       speechQueue := []\<rparr>"
  by (simp add: useEffect_cleanup_def stopCamera_eq clearInterval_def speechSynthesis_cancel_def)

lemma effect_stop_eq:
  "effect_stop s =
     s\<lparr>liveTracks := (case mediaStreamRef s of None \<Rightarrow> liveTracks s
                       | Some stream \<Rightarrow> liveTracks s - {stream}),
       mediaStreamRef := None,
       videoRef := map_option (\<lambda>video. video\<lparr>srcObject := None\<rparr>) (videoRef s),
       intervals := (if truthy (processingIntervalRef s)
                     then intervals s - {the (processingIntervalRef s)} else intervals s),
       processingIntervalRef := (if truthy (processingIntervalRef s) then None
                                 else processingIntervalRef s),
       speechQueue := [],
       isProcessingRef := False,
       isSpeakingRef := False,
       statusMessage := js ''Tap screen to begin''\<rparr>"
  by (simp add: effect_stop_def stopCamera_eq clearInterval_def speechSynthesis_cancel_def)


lemma effect_start_eq:
  "effect_start s =
     s\<lparr>statusMessage := (if mediaStreamRef s \<noteq> None then statusMessage s
                          else js ''Starting camera...''),
       pendingGetUserMedia := (if mediaStreamRef s \<noteq> None then pendingGetUserMedia s
                               else pendingGetUserMedia s @ [closure_of s]),
       nextHandle := nextHandle s + 1,
       intervals := insert (nextHandle s) (intervals s),
       processingIntervalRef := Some (nextHandle s)\<rparr>"
  by (simp add: effect_start_def startCamera_def Let_def)

lemma truthy_None: "\<not> truthy None"
  by (simp add: truthy_def)

lemma truthy_reset [simp]: "\<not> truthy (if truthy r then None else r)"
  by (simp add: truthy_def split: option.splits)

lemma release_video_idem [simp]:
  "map_option (\<lambda>video. video\<lparr>srcObject := None\<rparr>)
     (map_option (\<lambda>video. video\<lparr>srcObject := None\<rparr>) v)
   = map_option (\<lambda>video. video\<lparr>srcObject := None\<rparr>) v"
  by (cases v) simp_all

lemma effect_stop_idem: "effect_stop (effect_stop s) = effect_stop s"
  by (simp add: effect_stop_eq)

lemma cleanup_effect_stop: "useEffect_cleanup (effect_stop s) = effect_stop s"
  by (simp add: effect_stop_eq useEffect_cleanup_eq)

lemma effect_stop_init: "effect_stop init = init"
  by (simp add: effect_stop_eq init_def truthy_def)

lemma effect_stop_active [simp]: "isAssistantActive (effect_stop s) = isAssistantActive s"
  by (simp add: effect_stop_eq)

lemma cleanup_active [simp]: "isAssistantActive (useEffect_cleanup s) = isAssistantActive s"
  by (simp add: useEffect_cleanup_eq)

lemma rerender_inactive_eq:
  "\<not> isAssistantActive s \<Longrightarrow> rerender s = effect_stop (useEffect_cleanup s)"
  by (simp add: rerender_def useEffect_body_def)

lemma rerender_active_eq:
  "isAssistantActive s \<Longrightarrow> rerender s = effect_start (useEffect_cleanup s)"
  by (simp add: rerender_def useEffect_body_def)

lemma rerender_error [simp]: "error (rerender s) = error s"
  by (cases "isAssistantActive s")
    (simp_all add: rerender_inactive_eq rerender_active_eq effect_stop_eq effect_start_eq
      useEffect_cleanup_eq)

lemma rerender_speakCalls [simp]: "speakCalls (rerender s) = speakCalls s"
  by (cases "isAssistantActive s")
    (simp_all add: rerender_inactive_eq rerender_active_eq effect_stop_eq effect_start_eq
      useEffect_cleanup_eq)

lemma rerender_isAssistantActive [simp]: "isAssistantActive (rerender s) = isAssistantActive s"
  by (cases "isAssistantActive s")
    (simp_all add: rerender_inactive_eq rerender_active_eq effect_stop_eq effect_start_eq
      useEffect_cleanup_eq)

lemma rerender_inactive:
  "\<not> isAssistantActive s \<Longrightarrow>
   statusMessage (rerender s) = js ''Tap screen to begin''
   \<and> mediaStreamRef (rerender s) = None \<and> \<not> truthy (processingIntervalRef (rerender s))
   \<and> speechQueue (rerender s) = []"
  by (simp add: rerender_inactive_eq effect_stop_eq useEffect_cleanup_eq truthy_None)


section \<open>Camera failure\<close>

lemma rejected_fields:
  "error (startCamera_rejected c err s)
     = Some (js ''Could not access the camera. Please check permissions.'')"
  "speakCalls (startCamera_rejected c err s)
     = speakCalls s @ [js ''Error: Could not access the camera.'']"
  "map u_text (speechQueue (startCamera_rejected c err s))
     = [js ''Error: Could not access the camera.'']"
  "\<not> isAssistantActive (startCamera_rejected c err s)"
  by (simp_all add: startCamera_rejected_def speak_eq Let_def)

lemma started_fields:
  "pendingGetUserMedia (step Toggle mounted) = [closure_of (step Toggle mounted)]"
  "isAssistantActive (step Toggle mounted)"
  "speakCalls (step Toggle mounted) = [js ''Starting assistant.'']"
  by (simp_all add: mounted_eq init_def rerender_active_eq handleToggleAssistant_def
      effect_start_eq useEffect_cleanup_eq speak_eq closure_of_def truthy_def)

lemma rejected_queue_cancelled:
  assumes "isAssistantActive s" and "pendingGetUserMedia s = c # cs"
  shows "step (GetUserMediaRejected err) s
     = rerender (startCamera_rejected c err (s\<lparr>pendingGetUserMedia := cs\<rparr>))"
  using assms by (simp add: Let_def)

text \<open>
  Claim C6. When camera acquisition fails in an active session, the visible error message
  is set, \<^verbatim>\<open>speak\<close> is called once with the fixed phrase, and the session becomes
  inactive. But the change of \<^verbatim>\<open>isAssistantActive\<close> is followed by the effect, whose
  cleanup and stop branch cancel speech: after the event the speech queue is empty, no
  utterance is speaking, and a start event of the speech engine finds nothing to start. The
  error utterance is handed to the speech engine and removed before it is spoken.
\<close>

theorem camera_error_utterance_cancelled:
  assumes "isAssistantActive s" and "pendingGetUserMedia s = c # cs"
  shows "error (step (GetUserMediaRejected err) s)
       = Some (js ''Could not access the camera. Please check permissions.'')
     \<and> \<not> isAssistantActive (step (GetUserMediaRejected err) s)
     \<and> speakCalls (step (GetUserMediaRejected err) s)
       = speakCalls s @ [js ''Error: Could not access the camera.'']
     \<and> speechQueue (step (GetUserMediaRejected err) s) = []
     \<and> \<not> isSpeakingRef (step (GetUserMediaRejected err) s)
     \<and> step UtteranceStart (step (GetUserMediaRejected err) s)
       = step (GetUserMediaRejected err) s"
proof -
  let ?h = "startCamera_rejected c err (s\<lparr>pendingGetUserMedia := cs\<rparr>)"
  have e: "step (GetUserMediaRejected err) s = rerender ?h"
    using assms by (rule rejected_queue_cancelled)
  have n: "\<not> isAssistantActive ?h" by (rule rejected_fields)
  have q: "speechQueue (rerender ?h) = []" using rerender_inactive [OF n] by blast
  have k: "\<not> isSpeakingRef (rerender ?h)"
    using n by (simp add: rerender_inactive_eq effect_stop_eq)
  from q have u: "step UtteranceStart (rerender ?h) = rerender ?h" by simp
  show ?thesis
    unfolding e using q k u n by (simp add: rejected_fields)
qed

theorem camera_error_utterance_cancelled_witness:
  "isAssistantActive (step Toggle mounted)
   \<and> pendingGetUserMedia (step Toggle mounted) = [closure_of (step Toggle mounted)]
   \<and> error (run [Toggle, GetUserMediaRejected Thrown] mounted)
       = Some (js ''Could not access the camera. Please check permissions.'')
   \<and> speakCalls (run [Toggle, GetUserMediaRejected Thrown] mounted)
       = [js ''Starting assistant.'', js ''Error: Could not access the camera.'']
   \<and> speechQueue (run [Toggle, GetUserMediaRejected Thrown] mounted) = []
   \<and> step UtteranceStart (run [Toggle, GetUserMediaRejected Thrown] mounted)
       = run [Toggle, GetUserMediaRejected Thrown] mounted"
proof -
  note t = camera_error_utterance_cancelled [OF started_fields(2),
      of "closure_of (step Toggle mounted)" "[]" Thrown]
  have p: "pendingGetUserMedia (step Toggle mounted) = closure_of (step Toggle mounted) # []"
    by (rule started_fields)
  from t [OF p] started_fields show ?thesis by simp
qed

section \<open>The cycle\<close>

lemma processFrame_skip:
  "isProcessingRef s \<or> isSpeakingRef s \<Longrightarrow> processFrame c fr s = s"
  by (auto simp: processFrame_def)

lemma processFrame_DataURL:
  assumes "\<not> isProcessingRef s" "\<not> isSpeakingRef s" "videoRef s \<noteq> None" "canvasRef s \<noteq> None"
    and "capture fr = DataURL b"
  shows "processFrame c fr s =
     s\<lparr>isProcessingRef := True, statusMessage := js ''Analyzing scene...'',
       canvasRef := Some \<lparr>canvas_width = fst (targetDimensions (videoWidth fr) (videoHeight fr)),
                           canvas_height = snd (targetDimensions (videoWidth fr) (videoHeight fr))\<rparr>,
       analyzeCalls := analyzeCalls s @ [b],
       pendingAnalyze := pendingAnalyze s @ [(c, b)]\<rparr>"
  using assms by (auto simp add: processFrame_def Let_def)

lemma processFrame_NoContext:
  assumes "\<not> isProcessingRef s" "\<not> isSpeakingRef s" "videoRef s \<noteq> None" "canvasRef s \<noteq> None"
    and "capture fr = NoContext"
  shows "processFrame c fr s =
     s\<lparr>isProcessingRef := False, statusMessage := js ''Analyzing scene...'',
       canvasRef := Some \<lparr>canvas_width = fst (targetDimensions (videoWidth fr) (videoHeight fr)),
                           canvas_height = snd (targetDimensions (videoWidth fr) (videoHeight fr))\<rparr>\<rparr>"
  using assms by (auto simp add: processFrame_def processFrame_finally_def Let_def)

lemma processFrame_catch_eq:
  "processFrame_catch c err s =
     speak c (js ''Error: Failed to process the scene.'')
       (s\<lparr>error := Some (js ''Failed to process frame: '' @
          (case err of Error message \<Rightarrow> message | Thrown \<Rightarrow> js ''An unknown error occurred.''))\<rparr>)"
  by (simp add: processFrame_catch_def Let_def)

lemma processFrame_Throws:
  assumes "\<not> isProcessingRef s" "\<not> isSpeakingRef s" "videoRef s \<noteq> None" "canvasRef s \<noteq> None"
    and "capture fr = Throws err"
  shows "processFrame c fr s =
     (processFrame_catch c err
       (s\<lparr>isProcessingRef := True, statusMessage := js ''Analyzing scene...'',
          canvasRef := Some \<lparr>canvas_width = fst (targetDimensions (videoWidth fr) (videoHeight fr)),
                           canvas_height = snd (targetDimensions (videoWidth fr) (videoHeight fr))\<rparr>\<rparr>))
       \<lparr>isProcessingRef := False\<rparr>"
  using assms by (auto simp add: processFrame_def processFrame_finally_def Let_def)

lemma resume_rejected:
  "processFrame_resume c (Inl err) s = processFrame_finally (processFrame_catch c err s)"
  by (simp add: processFrame_resume_def)

lemma resume_isProcessing [simp]: "\<not> isProcessingRef (processFrame_resume c settled s)"
  by (cases settled) (simp_all add: processFrame_resume_def processFrame_finally_def)

lemma resume_unchanged [simp]:
  "isAssistantActive (processFrame_resume c settled s) = isAssistantActive s"
  "statusMessage (processFrame_resume c settled s) = statusMessage s"
  "isSpeakingRef (processFrame_resume c settled s) = isSpeakingRef s"
  "videoRef (processFrame_resume c settled s) = videoRef s"
  "canvasRef (processFrame_resume c settled s) = canvasRef s"
  "mediaStreamRef (processFrame_resume c settled s) = mediaStreamRef s"
  "processingIntervalRef (processFrame_resume c settled s) = processingIntervalRef s"
  "intervals (processFrame_resume c settled s) = intervals s"
  "liveTracks (processFrame_resume c settled s) = liveTracks s"
  "pendingAnalyze (processFrame_resume c settled s) = pendingAnalyze s"
  "analyzeCalls (processFrame_resume c settled s) = analyzeCalls s"
  by (cases settled;
      simp add: processFrame_resume_def processFrame_finally_def processFrame_catch_eq speak_eq)+

lemma resume_resolved_fields:
  "error (processFrame_resume c (Inr description) s) = error s"
  "speakCalls (processFrame_resume c (Inr description) s) = speakCalls s @ [description]"
  "map u_text (speechQueue (processFrame_resume c (Inr description) s)) = [description]"
  "map u_onend_isAssistantActive (speechQueue (processFrame_resume c (Inr description) s))
     = [c_isAssistantActive c]"
  by (simp_all add: processFrame_resume_def processFrame_finally_def speak_eq)

text \<open>
  Claim C10. An invocation of \<^verbatim>\<open>processFrame\<close> that gets past its entry guard sets
  \<^verbatim>\<open>isProcessingRef\<close>, and the flag is cleared when the invocation completes: at once when
  no drawing context is available or a canvas call throws, and otherwise, with the call of
  \<^verbatim>\<open>analyzeScene\<close> pending in between, when that call has settled, whether the invocation
  then speaks the result or runs its \<^verbatim>\<open>catch\<close> block. So a tick that follows the
  completion is not held back by the flag: if no utterance is speaking, it starts a new
  cycle. (An invocation that the guard turns away never sets the flag: it changes nothing.)
\<close>

theorem processFrame_clears_isProcessing:
  "\<not> isProcessingRef (processFrame_resume c settled s)
   \<and> (isProcessingRef s \<or> isSpeakingRef s \<or> videoRef s = None \<or> canvasRef s = None \<longrightarrow>
        processFrame c fr s = s)
   \<and> (\<not> isProcessingRef s \<and> \<not> isSpeakingRef s \<and> videoRef s \<noteq> None \<and> canvasRef s \<noteq> None \<longrightarrow>
        (case capture fr of
           DataURL base64ImageData \<Rightarrow>
             isProcessingRef (processFrame c fr s)
             \<and> pendingAnalyze (processFrame c fr s) = pendingAnalyze s @ [(c, base64ImageData)]
         | NoContext \<Rightarrow> \<not> isProcessingRef (processFrame c fr s)
         | Throws err \<Rightarrow> \<not> isProcessingRef (processFrame c fr s)))
   \<and> (\<not> isSpeakingRef s \<and> videoRef s \<noteq> None \<and> canvasRef s \<noteq> None \<longrightarrow>
        statusMessage (processFrame c' fr' (processFrame_resume c settled s))
          = js ''Analyzing scene...''
        \<and> (capture fr' = DataURL b \<longrightarrow>
             analyzeCalls (processFrame c' fr' (processFrame_resume c settled s))
               = analyzeCalls s @ [b]))"
proof (intro conjI impI)
  show "\<not> isProcessingRef (processFrame_resume c settled s)" by simp
next
  assume "isProcessingRef s \<or> isSpeakingRef s \<or> videoRef s = None \<or> canvasRef s = None"
  then show "processFrame c fr s = s" by (simp add: processFrame_def)
next
  assume "\<not> isProcessingRef s \<and> \<not> isSpeakingRef s \<and> videoRef s \<noteq> None \<and> canvasRef s \<noteq> None"
  then show "case capture fr of
           DataURL base64ImageData \<Rightarrow>
             isProcessingRef (processFrame c fr s)
             \<and> pendingAnalyze (processFrame c fr s) = pendingAnalyze s @ [(c, base64ImageData)]
         | NoContext \<Rightarrow> \<not> isProcessingRef (processFrame c fr s)
         | Throws err \<Rightarrow> \<not> isProcessingRef (processFrame c fr s)"
    by (cases "capture fr")
      (simp_all add: processFrame_DataURL processFrame_NoContext processFrame_Throws)
next
  assume a: "\<not> isSpeakingRef s \<and> videoRef s \<noteq> None \<and> canvasRef s \<noteq> None"
  let ?s = "processFrame_resume c settled s"
  have g: "\<not> isProcessingRef ?s" "\<not> isSpeakingRef ?s" "videoRef ?s \<noteq> None" "canvasRef ?s \<noteq> None"
    using a by simp_all
  show "statusMessage (processFrame c' fr' ?s) = js ''Analyzing scene...''"
    using g by (cases "capture fr'")
      (simp_all add: processFrame_DataURL processFrame_NoContext processFrame_Throws
        processFrame_catch_eq speak_eq)
  assume "capture fr' = DataURL b"
  from processFrame_DataURL [OF g this]
  show "analyzeCalls (processFrame c' fr' ?s) = analyzeCalls s @ [b]" by simp
qed

lemma example_analysis:
  "analyzeScene example_response example_image = Inr (js ''Stop. Curb ahead.'')"
  "analyzeScene example_failure example_image = Inr (js ''Error analyzing.'')"
  by (simp_all add: analyzeScene_cases example_part example_response_def example_failure_def)

lemma listening_fields:
  "isAssistantActive listening" "\<not> isProcessingRef listening" "\<not> isSpeakingRef listening"
  "videoRef listening \<noteq> None" "canvasRef listening \<noteq> None" "intervals listening = {1}"
  "pendingAnalyze listening = []" "analyzeCalls listening = []" "speechQueue listening = []"
  "error listening = None"
  by (simp_all add: listening_eq init_def)

theorem processFrame_clears_isProcessing_witness:
  "\<not> isProcessingRef listening \<and> \<not> isSpeakingRef listening \<and> videoRef listening \<noteq> None
   \<and> canvasRef listening \<noteq> None
   \<and> capture example_frame = DataURL example_image
   \<and> isProcessingRef (processFrame (closure_of listening) example_frame listening)
   \<and> \<not> isProcessingRef (processFrame_resume (closure_of listening)
         (analyzeScene example_response example_image)
         (processFrame (closure_of listening) example_frame listening))"
proof -
  have c: "capture example_frame = DataURL example_image" by (simp add: example_frame_def)
  note t = processFrame_clears_isProcessing [of "closure_of listening"
      "analyzeScene example_response example_image"
      "processFrame (closure_of listening) example_frame listening"]
  note u = processFrame_clears_isProcessing [of "closure_of listening" "Inr []" listening
      example_frame]
  from t have 1: "\<not> isProcessingRef (processFrame_resume (closure_of listening)
         (analyzeScene example_response example_image)
         (processFrame (closure_of listening) example_frame listening))"
    by (rule conjunct1)
  from u listening_fields c
  have 2: "isProcessingRef (processFrame (closure_of listening) example_frame listening)"
    by simp
  from 1 2 c listening_fields(2-5) show ?thesis by blast
qed


section \<open>One analysis at a time\<close>

lemma handleToggleAssistant_fields [simp]:
  "pendingAnalyze (handleToggleAssistant s) = pendingAnalyze s"
  "isProcessingRef (handleToggleAssistant s) = isProcessingRef s"
  "isAssistantActive (handleToggleAssistant s) = (\<not> isAssistantActive s)"
  by (simp_all add: handleToggleAssistant_def speak_eq Let_def)

lemma loadVoices_fields [simp]:
  "pendingAnalyze (loadVoices vs s) = pendingAnalyze s"
  "isProcessingRef (loadVoices vs s) = isProcessingRef s"
  "isAssistantActive (loadVoices vs s) = isAssistantActive s"
  by (simp_all add: loadVoices_def)

lemma rerender_active_fields:
  "isAssistantActive s \<Longrightarrow>
   pendingAnalyze (rerender s) = pendingAnalyze s \<and> isProcessingRef (rerender s) = isProcessingRef s"
  by (simp add: rerender_active_eq effect_start_eq useEffect_cleanup_eq)

lemma exclusive_cong:
  "pendingAnalyze t = pendingAnalyze s \<Longrightarrow> isProcessingRef t = isProcessingRef s \<Longrightarrow>
   exclusive t = exclusive s"
  by (simp add: exclusive_def)

lemma startCamera_resolved_fields [simp]:
  "pendingAnalyze (startCamera_resolved c s) = pendingAnalyze s"
  "isProcessingRef (startCamera_resolved c s) = isProcessingRef s"
  by (cases "videoRef s"; simp add: startCamera_resolved_def Let_def)+

lemma utterance_fields [simp]:
  "pendingAnalyze (utterance_onstart s) = pendingAnalyze s"
  "isProcessingRef (utterance_onstart s) = isProcessingRef s"
  "pendingAnalyze (utterance_onend u s) = pendingAnalyze s"
  "isProcessingRef (utterance_onend u s) = isProcessingRef s"
  "pendingAnalyze (utterance_onerror s) = pendingAnalyze s"
  "isProcessingRef (utterance_onerror s) = isProcessingRef s"
  by (simp_all add: utterance_onstart_def utterance_onend_def utterance_onerror_def)

lemma processFrame_exclusive: "exclusive s \<Longrightarrow> exclusive (processFrame c fr s)"
proof (cases "isProcessingRef s \<or> isSpeakingRef s \<or> videoRef s = None \<or> canvasRef s = None")
  case True
  assume "exclusive s"
  with True show ?thesis by (simp add: processFrame_def)
next
  case False
  assume "exclusive s"
  with False have p: "pendingAnalyze s = []" by (auto simp: exclusive_def)
  from False have g: "\<not> isProcessingRef s" "\<not> isSpeakingRef s" "videoRef s \<noteq> None"
    "canvasRef s \<noteq> None" by simp_all
  show ?thesis
  proof (cases "capture fr")
    case NoContext
    from processFrame_NoContext [OF g this] p show ?thesis by (simp add: exclusive_def)
  next
    case (DataURL b)
    from processFrame_DataURL [OF g this] p show ?thesis by (simp add: exclusive_def)
  next
    case (Throws err)
    from processFrame_Throws [OF g this] p show ?thesis
      by (simp add: exclusive_def processFrame_catch_eq speak_eq)
  qed
qed

lemma step_exclusive:
  assumes "exclusive s" and "isAssistantActive (step e s)"
  shows "exclusive (step e s)"
proof (cases e)
  case Toggle
  with assms(2) have "isAssistantActive (handleToggleAssistant s)" by simp
  from rerender_active_fields [OF this] assms(1) show ?thesis
    by (simp add: Toggle exclusive_def)
next
  case (VoicesChanged vs)
  with assms(2) have "isAssistantActive (loadVoices vs s)" by simp
  from rerender_active_fields [OF this] assms(1) show ?thesis
    by (simp add: VoicesChanged exclusive_def)
next
  case GetUserMediaResolved
  with assms(1) show ?thesis by (simp add: exclusive_def split: list.splits)
next
  case (GetUserMediaRejected err)
  show ?thesis
  proof (cases "pendingGetUserMedia s")
    case Nil
    with assms(1) show ?thesis by (simp add: GetUserMediaRejected)
  next
    case (Cons c cs)
    with assms(2) show ?thesis
      by (simp add: GetUserMediaRejected Let_def rejected_fields split: if_splits)
  qed
next
  case (Tick fr)
  with assms(1) show ?thesis by (simp add: processFrame_exclusive)
next
  case (AnalyzeSettled generateContent)
  show ?thesis
  proof (cases "pendingAnalyze s")
    case Nil
    with assms(1) show ?thesis by (simp add: AnalyzeSettled)
  next
    case (Cons p rest)
    with assms(1) have "rest = []" by (simp add: exclusive_def)
    with Cons show ?thesis
      by (cases p) (simp add: AnalyzeSettled exclusive_def)
  qed
next
  case UtteranceStart
  with assms(1) show ?thesis by (simp add: exclusive_def split: list.splits)
next
  case UtteranceEnd
  with assms(1) show ?thesis by (simp add: exclusive_def split: list.splits)
next
  case UtteranceError
  with assms(1) show ?thesis by (simp add: exclusive_def split: list.splits)
qed

lemma run_exclusive:
  "exclusive s \<Longrightarrow> active_throughout es s \<Longrightarrow> exclusive (run es s)"
proof (induction es arbitrary: s)
  case Nil
  then show ?case by simp
next
  case (Cons e es)
  from Cons.prems have "exclusive (step e s)" by (simp add: step_exclusive)
  with Cons show ?case by simp
qed

lemma exclusive_pending: "exclusive s \<Longrightarrow> length (pendingAnalyze s) \<le> 1"
  by (auto simp: exclusive_def)

text \<open>
  What the guard does ensure: a tick that fires while one of the two flags is set changes
  nothing, and in a run in which the session is active after every event, a state with at
  most one call pending, and the flag set while it is, is followed by such states only.
\<close>

lemma tick_skipped:
  "isProcessingRef s \<or> isSpeakingRef s \<Longrightarrow> step (Tick fr) s = s"
  by (simp add: processFrame_skip)

section \<open>Runs from a listening session\<close>

lemmas run_simps = listening_eq init_def closure_of_def processFrame_def processFrame_resume_def
  processFrame_finally_def processFrame_catch_eq speak_eq example_analysis example_frame_def
  targetDimensions_def MAX_DIMENSION_def Let_def utterance_onstart_def utterance_onend_def
  utterance_onerror_def handleToggleAssistant_def rerender_def useEffect_body_def
  effect_stop_eq effect_start_eq useEffect_cleanup_eq truthy_def

lemma analyzing_fields:
  "isAssistantActive (step (Tick example_frame) listening)"
  "isProcessingRef (step (Tick example_frame) listening)"
  "pendingAnalyze (step (Tick example_frame) listening) = [(closure_of listening, example_image)]"
  "analyzeCalls (step (Tick example_frame) listening) = [example_image]"
  by (simp_all add: run_simps)

text \<open>
  Claim C1. The entry guard of \<^verbatim>\<open>processFrame\<close> does not keep the cycles of an active
  session apart; two runs show it. In the first, the analysis of a cycle resolves and its
  utterance is handed to the speech engine: until the start event of that utterance neither
  flag is set, and a tick that fires then issues a second call of \<^verbatim>\<open>analyzeScene\<close>
  while the utterance of the first cycle is still waiting to be spoken. In the second, the
  session is stopped and started again while a call is pending: the stop clears
  \<^verbatim>\<open>isProcessingRef\<close>, the next tick passes the guard, and two calls are pending at
  once.
\<close>

theorem two_cycles_in_flight:
  "\<not> isProcessingRef (run [Tick example_frame, AnalyzeSettled example_response] listening)
   \<and> \<not> isSpeakingRef (run [Tick example_frame, AnalyzeSettled example_response] listening)
   \<and> map u_text (speechQueue (run [Tick example_frame, AnalyzeSettled example_response] listening))
       = [js ''Stop. Curb ahead.'']
   \<and> analyzeCalls (run [Tick example_frame, AnalyzeSettled example_response, Tick example_frame]
        listening) = [example_image, example_image]
   \<and> map u_text (speechQueue (run [Tick example_frame, AnalyzeSettled example_response,
        Tick example_frame] listening)) = [js ''Stop. Curb ahead.'']
   \<and> length (pendingAnalyze (run [Tick example_frame, AnalyzeSettled example_response,
        Tick example_frame] listening)) = 1
   \<and> isAssistantActive (run [Tick example_frame, Toggle, Toggle] listening)
   \<and> length (pendingAnalyze (run [Tick example_frame, Toggle, Toggle] listening)) = 1
   \<and> \<not> isProcessingRef (run [Tick example_frame, Toggle, Toggle] listening)
   \<and> analyzeCalls (run [Tick example_frame, Toggle, Toggle, Tick example_frame] listening)
       = [example_image, example_image]
   \<and> length (pendingAnalyze (run [Tick example_frame, Toggle, Toggle, Tick example_frame]
        listening)) = 2"
  by (simp add: run_simps)

section \<open>Results that arrive after a stop\<close>

lemma analyzeScene_resolves:
  "\<exists>description. analyzeScene generateContent x = Inr description \<and> description \<noteq> []"
  by (auto simp: analyzeScene_cases
      split: sum.splits generateContentResult.splits option.splits)

lemma resolved_callbacks:
  "statusMessage (step UtteranceStart (processFrame_resume c (Inr description) s))
     = js ''Speaking...''"
  "isSpeakingRef (step UtteranceStart (processFrame_resume c (Inr description) s))"
  "statusMessage (step UtteranceEnd (processFrame_resume c (Inr description) s))
     = (if c_isAssistantActive c then js ''Listening...'' else js ''Assistant stopped.'')"
  by (simp_all add: processFrame_resume_def processFrame_finally_def speak_eq
      utterance_onstart_def utterance_onend_def)

text \<open>
  Claim C3, as amended. When the session has been stopped while a call of
  \<^verbatim>\<open>analyzeScene\<close> was in flight, the result of the call is not discarded: when it
  settles, the invocation hands its text, which is never empty, to \<^verbatim>\<open>speak\<close>, and one
  utterance with that text is in the speech queue. Settling clears the in-progress flag
  and leaves the session inactive, with the status message, the error, the camera stream
  and the timer as they were; the status message becomes \<^verbatim>\<open>Speaking...\<close> when that
  utterance starts, and when it ends \<^verbatim>\<open>Listening...\<close> or \<^verbatim>\<open>Assistant stopped.\<close>, by
  the value of \<^verbatim>\<open>isAssistantActive\<close> that the invocation closed over.
\<close>

theorem stale_result_is_spoken:
  assumes "\<not> isAssistantActive s"
    and "pendingAnalyze s = (c, base64ImageData) # rest"
  shows "\<exists>description.
     analyzeScene generateContent base64ImageData = Inr description \<and> description \<noteq> []
     \<and> speakCalls (step (AnalyzeSettled generateContent) s) = speakCalls s @ [description]
     \<and> map u_text (speechQueue (step (AnalyzeSettled generateContent) s)) = [description]
     \<and> \<not> isAssistantActive (step (AnalyzeSettled generateContent) s)
     \<and> \<not> isProcessingRef (step (AnalyzeSettled generateContent) s)
     \<and> statusMessage (step (AnalyzeSettled generateContent) s) = statusMessage s
     \<and> error (step (AnalyzeSettled generateContent) s) = error s
     \<and> mediaStreamRef (step (AnalyzeSettled generateContent) s) = mediaStreamRef s
     \<and> processingIntervalRef (step (AnalyzeSettled generateContent) s) = processingIntervalRef s
     \<and> intervals (step (AnalyzeSettled generateContent) s) = intervals s
     \<and> statusMessage (step UtteranceStart (step (AnalyzeSettled generateContent) s))
         = js ''Speaking...''
     \<and> isSpeakingRef (step UtteranceStart (step (AnalyzeSettled generateContent) s))
     \<and> statusMessage (step UtteranceEnd (step (AnalyzeSettled generateContent) s))
         = (if c_isAssistantActive c then js ''Listening...'' else js ''Assistant stopped.'')"
proof -
  obtain description where d: "analyzeScene generateContent base64ImageData = Inr description"
    and n: "description \<noteq> []"
    using analyzeScene_resolves by blast
  have e: "step (AnalyzeSettled generateContent) s
      = processFrame_resume c (Inr description) (s\<lparr>pendingAnalyze := rest\<rparr>)"
    using assms(2) d by simp
  show ?thesis
  proof (intro exI conjI)
    show "analyzeScene generateContent base64ImageData = Inr description" by (rule d)
    show "description \<noteq> []" by (rule n)
  qed (simp_all only: e resolved_callbacks resume_resolved_fields resume_unchanged
      resume_isProcessing not_False_eq_True, simp_all add: assms(1))
qed

lemma stopped_in_flight:
  "\<not> isAssistantActive (run [Tick example_frame, Toggle] listening)"
  "pendingAnalyze (run [Tick example_frame, Toggle] listening)
     = (closure_of listening, example_image) # []"
  "speakCalls (run [Tick example_frame, Toggle] listening) = [js ''Starting assistant.'']"
  "statusMessage (run [Tick example_frame, Toggle] listening) = js ''Tap screen to begin''"
  by (simp_all add: run_simps)

theorem stale_result_is_spoken_witness:
  "\<not> isAssistantActive (run [Tick example_frame, Toggle] listening)
   \<and> pendingAnalyze (run [Tick example_frame, Toggle] listening)
       = [(closure_of listening, example_image)]
   \<and> (\<exists>description.
        analyzeScene example_response example_image = Inr description \<and> description \<noteq> []
        \<and> speakCalls (step (AnalyzeSettled example_response)
             (run [Tick example_frame, Toggle] listening))
           = speakCalls (run [Tick example_frame, Toggle] listening) @ [description])"
proof -
  from stale_result_is_spoken [OF stopped_in_flight(1,2), of example_response]
  have "\<exists>description.
        analyzeScene example_response example_image = Inr description \<and> description \<noteq> []
        \<and> speakCalls (step (AnalyzeSettled example_response)
             (run [Tick example_frame, Toggle] listening))
           = speakCalls (run [Tick example_frame, Toggle] listening) @ [description]"
    by blast
  with stopped_in_flight(1,2) show ?thesis by blast
qed

text \<open>
  Claim C3 as stated fails. A session is stopped while its analysis is in flight; when the
  analysis resolves, its text is spoken, and the status message of the stopped session
  becomes \<^verbatim>\<open>Speaking...\<close> and then \<^verbatim>\<open>Listening...\<close>.
\<close>

theorem stale_result_counterexample:
  "\<not> isAssistantActive (run [Tick example_frame, Toggle] listening)
   \<and> speakCalls (run [Tick example_frame, Toggle] listening) = [js ''Starting assistant.'']
   \<and> speakCalls (run [Tick example_frame, Toggle, AnalyzeSettled example_response] listening)
       = [js ''Starting assistant.'', js ''Stop. Curb ahead.'']
   \<and> map u_text (speechQueue
         (run [Tick example_frame, Toggle, AnalyzeSettled example_response] listening))
       = [js ''Stop. Curb ahead.'']
   \<and> statusMessage (run [Tick example_frame, Toggle] listening) = js ''Tap screen to begin''
   \<and> statusMessage
         (run [Tick example_frame, Toggle, AnalyzeSettled example_response, UtteranceStart]
            listening)
       = js ''Speaking...''
   \<and> statusMessage
         (run [Tick example_frame, Toggle, AnalyzeSettled example_response, UtteranceStart,
               UtteranceEnd] listening)
       = js ''Listening...''"
  by (simp add: run_simps)


section \<open>Failures of the remote analysis\<close>

lemma example_failure_try:
  "analyzeScene_try example_failure example_image = Inl (Error (js ''Failed to fetch''))"
  by (simp add: analyzeScene_try_def example_part example_failure_def)





lemma failure_settled:
  assumes "pendingAnalyze s = (c, base64ImageData) # rest"
    and "analyzeScene_try generateContent base64ImageData = Inl err"
  shows "step (AnalyzeSettled generateContent) s
     = processFrame_resume c (Inr (js ''Error analyzing.'')) (s\<lparr>pendingAnalyze := rest\<rparr>)"
  using assms by (simp add: analyzeScene_failure)

lemma resolved_lifecycle:
  "isSpeakingRef (step UtteranceStart (processFrame_resume c (Inr description) s))"
  "\<not> isSpeakingRef (step UtteranceEnd (step UtteranceStart
       (processFrame_resume c (Inr description) s)))"
  "\<not> isSpeakingRef (step UtteranceError (step UtteranceStart
       (processFrame_resume c (Inr description) s)))"
  by (simp_all add: processFrame_resume_def processFrame_finally_def speak_eq
      utterance_onstart_def utterance_onend_def utterance_onerror_def)





section \<open>How errors surface\<close>

lemma tick_throws:
  assumes "\<not> isProcessingRef s" "\<not> isSpeakingRef s" "videoRef s \<noteq> None" "canvasRef s \<noteq> None"
    and "intervals s \<noteq> {}" and "capture fr = Throws err"
  shows "error (step (Tick fr) s)
       = Some (js ''Failed to process frame: '' @
           (case err of Error message \<Rightarrow> message | Thrown \<Rightarrow> js ''An unknown error occurred.''))"
    and "speakCalls (step (Tick fr) s) = speakCalls s @ [js ''Error: Failed to process the scene.'']"
    and "map u_text (speechQueue (step (Tick fr) s)) = [js ''Error: Failed to process the scene.'']"
    and "isSpeakingRef (step UtteranceStart (step (Tick fr) s))"
    and "statusMessage (step UtteranceStart (step (Tick fr) s)) = js ''Speaking...''"
proof -
  have e: "step (Tick fr) s = processFrame (closure_of s) fr s" using assms(5) by simp
  note t = processFrame_Throws [OF assms(1-4,6), of "closure_of s"]
  show "error (step (Tick fr) s)
       = Some (js ''Failed to process frame: '' @
           (case err of Error message \<Rightarrow> message | Thrown \<Rightarrow> js ''An unknown error occurred.''))"
    and "speakCalls (step (Tick fr) s) = speakCalls s @ [js ''Error: Failed to process the scene.'']"
    and "map u_text (speechQueue (step (Tick fr) s)) = [js ''Error: Failed to process the scene.'']"
    and "isSpeakingRef (step UtteranceStart (step (Tick fr) s))"
    and "statusMessage (step UtteranceStart (step (Tick fr) s)) = js ''Speaking...''"
    unfolding e t by (simp_all add: processFrame_catch_eq speak_eq utterance_onstart_def)
qed

text \<open>
  Claim C7, as amended. A camera-acquisition error sets the visible error string. An
  exception raised inside \<^verbatim>\<open>processFrame\<close> sets the visible error string and is spoken:
  its fixed phrase is the utterance in the speech queue after the event, and the status
  becomes \<^verbatim>\<open>Speaking...\<close> when it starts. A speech-output error sets the visible error
  string and speaks nothing. A remote-analysis error is spoken as \<^verbatim>\<open>Error analyzing.\<close>
  in the same way, and leaves the visible error string and the status message as they
  were.
\<close>

theorem errors_surface:
  "(pendingGetUserMedia s = c # cs \<longrightarrow>
      error (step (GetUserMediaRejected err) s)
        = Some (js ''Could not access the camera. Please check permissions.''))
   \<and> (\<not> isProcessingRef s \<and> \<not> isSpeakingRef s \<and> videoRef s \<noteq> None \<and> canvasRef s \<noteq> None
        \<and> intervals s \<noteq> {} \<and> capture fr = Throws err \<longrightarrow>
      error (step (Tick fr) s)
        = Some (js ''Failed to process frame: '' @
            (case err of Error message \<Rightarrow> message | Thrown \<Rightarrow> js ''An unknown error occurred.''))
      \<and> speakCalls (step (Tick fr) s) = speakCalls s @ [js ''Error: Failed to process the scene.'']
      \<and> map u_text (speechQueue (step (Tick fr) s)) = [js ''Error: Failed to process the scene.'']
      \<and> isSpeakingRef (step UtteranceStart (step (Tick fr) s))
      \<and> statusMessage (step UtteranceStart (step (Tick fr) s)) = js ''Speaking...'')
   \<and> (speechQueue s = utterance # queued \<longrightarrow>
      error (step UtteranceError s) = Some (js ''A speech error occurred.'')
      \<and> speakCalls (step UtteranceError s) = speakCalls s
      \<and> speechQueue (step UtteranceError s) = queued)
   \<and> (pendingAnalyze s = (c', base64ImageData) # rest
        \<and> analyzeScene_try generateContent base64ImageData = Inl err' \<longrightarrow>
      error (step (AnalyzeSettled generateContent) s) = error s
      \<and> statusMessage (step (AnalyzeSettled generateContent) s) = statusMessage s
      \<and> speakCalls (step (AnalyzeSettled generateContent) s)
          = speakCalls s @ [js ''Error analyzing.'']
      \<and> map u_text (speechQueue (step (AnalyzeSettled generateContent) s))
          = [js ''Error analyzing.'']
      \<and> isSpeakingRef (step UtteranceStart (step (AnalyzeSettled generateContent) s))
      \<and> statusMessage (step UtteranceStart (step (AnalyzeSettled generateContent) s))
          = js ''Speaking...'')"
proof (intro conjI impI)
  assume "pendingGetUserMedia s = c # cs"
  then show "error (step (GetUserMediaRejected err) s)
        = Some (js ''Could not access the camera. Please check permissions.'')"
    by (simp add: Let_def rejected_fields)
next
  assume a: "\<not> isProcessingRef s \<and> \<not> isSpeakingRef s \<and> videoRef s \<noteq> None \<and> canvasRef s \<noteq> None
        \<and> intervals s \<noteq> {} \<and> capture fr = Throws err"
  then have g: "\<not> isProcessingRef s" "\<not> isSpeakingRef s" "videoRef s \<noteq> None"
    "canvasRef s \<noteq> None" "intervals s \<noteq> {}" "capture fr = Throws err"
    by simp_all
  note t = tick_throws [OF g]
  show "error (step (Tick fr) s)
        = Some (js ''Failed to process frame: '' @
            (case err of Error message \<Rightarrow> message | Thrown \<Rightarrow> js ''An unknown error occurred.''))"
    by (rule t)
  show "speakCalls (step (Tick fr) s) = speakCalls s @ [js ''Error: Failed to process the scene.'']"
    by (rule t)
  show "map u_text (speechQueue (step (Tick fr) s)) = [js ''Error: Failed to process the scene.'']"
    by (rule t)
  show "isSpeakingRef (step UtteranceStart (step (Tick fr) s))" by (rule t)
  show "statusMessage (step UtteranceStart (step (Tick fr) s)) = js ''Speaking...''" by (rule t)
next
  assume q: "speechQueue s = utterance # queued"
  then show "error (step UtteranceError s) = Some (js ''A speech error occurred.'')"
    and "speakCalls (step UtteranceError s) = speakCalls s"
    and "speechQueue (step UtteranceError s) = queued"
    by (simp_all add: utterance_onerror_def)
next
  assume "pendingAnalyze s = (c', base64ImageData) # rest
        \<and> analyzeScene_try generateContent base64ImageData = Inl err'"
  then have "pendingAnalyze s = (c', base64ImageData) # rest"
    and "analyzeScene_try generateContent base64ImageData = Inl err'"
    by blast+
  then have e: "step (AnalyzeSettled generateContent) s
     = processFrame_resume c' (Inr (js ''Error analyzing.'')) (s\<lparr>pendingAnalyze := rest\<rparr>)"
    by (rule failure_settled)
  show "error (step (AnalyzeSettled generateContent) s) = error s"
    and "statusMessage (step (AnalyzeSettled generateContent) s) = statusMessage s"
    and "speakCalls (step (AnalyzeSettled generateContent) s)
          = speakCalls s @ [js ''Error analyzing.'']"
    and "map u_text (speechQueue (step (AnalyzeSettled generateContent) s))
          = [js ''Error analyzing.'']"
    and "isSpeakingRef (step UtteranceStart (step (AnalyzeSettled generateContent) s))"
    and "statusMessage (step UtteranceStart (step (AnalyzeSettled generateContent) s))
          = js ''Speaking...''"
    unfolding e
    by (simp_all only: resolved_callbacks resolved_lifecycle resume_resolved_fields
        resume_unchanged) simp_all
qed

theorem errors_surface_witness:
  "pendingAnalyze (step (Tick example_frame) listening) = [(closure_of listening, example_image)]
   \<and> analyzeScene_try example_failure example_image = Inl (Error (js ''Failed to fetch''))
   \<and> error (run [Tick example_frame, AnalyzeSettled example_failure] listening) = None
   \<and> map u_text (speechQueue (run [Tick example_frame, AnalyzeSettled example_failure] listening))
       = [js ''Error analyzing.'']
   \<and> isSpeakingRef (run [Tick example_frame, AnalyzeSettled example_failure, UtteranceStart]
        listening)"
proof -
  let ?a = "step (Tick example_frame) listening"
  have p: "pendingAnalyze ?a = (closure_of listening, example_image) # []"
    by (rule analyzing_fields)
  note t = errors_surface [where s = ?a and generateContent = example_failure
      and base64ImageData = example_image and c' = "closure_of listening" and rest = "[]"]
  from t p example_failure_try have
    1: "error (step (AnalyzeSettled example_failure) ?a) = error ?a"
    and 2: "map u_text (speechQueue (step (AnalyzeSettled example_failure) ?a))
        = [js ''Error analyzing.'']"
    and 3: "isSpeakingRef (step UtteranceStart (step (AnalyzeSettled example_failure) ?a))"
    by blast+
  have "error ?a = None" by (simp add: run_simps)
  with 1 have 4: "error (step (AnalyzeSettled example_failure) ?a) = None" by (simp only:)
  show ?thesis
    unfolding run.simps using 4 2 3 p example_failure_try by blast
qed

text \<open>
  Claim C7 as stated fails. After a failed remote analysis the error state is still empty
  and the status message is unchanged: the failure is only spoken.
\<close>

theorem analysis_failure_not_visible_counterexample:
  "error (run [Tick example_frame, AnalyzeSettled example_failure] listening) = None
   \<and> speakCalls (run [Tick example_frame, AnalyzeSettled example_failure] listening)
       = [js ''Starting assistant.'', js ''Error analyzing.'']
   \<and> statusMessage (run [Tick example_frame, AnalyzeSettled example_failure] listening)
       = js ''Analyzing scene...''"
  by (simp add: run_simps)

section \<open>Stopping\<close>

lemma video_released [simp]:
  "(video\<lparr>srcObject := None\<rparr> = video) = (srcObject video = None)"
  by (cases video) auto

lemma quiescent_effect_stop: "quiescent (effect_stop s)"
  by (cases "videoRef s") (simp_all add: quiescent_def effect_stop_eq)

lemma quiescent_fixed: "quiescent s \<Longrightarrow> effect_stop s = s"
  by (cases "videoRef s") (simp_all add: quiescent_def effect_stop_eq)

lemma quiescent_cleanup: "quiescent s \<Longrightarrow> useEffect_cleanup s = s"
  by (cases "videoRef s") (simp_all add: quiescent_def useEffect_cleanup_eq)

lemma quiescent_init: "quiescent init"
  by (simp add: quiescent_def init_def truthy_def)

text \<open>
  Claim C8, as amended. The stop path is idempotent: run a second time right after
  itself, it changes nothing. The states it leaves unchanged are exactly the quiescent
  ones; the initial state and every state the stop path has produced are quiescent; and on
  a quiescent state the cleanup of the effect changes nothing either, nor does the cleanup
  followed by the effect when the session is inactive.
\<close>

theorem stop_idempotent:
  "effect_stop (effect_stop s) = effect_stop s
   \<and> (effect_stop s = s \<longleftrightarrow> quiescent s)
   \<and> quiescent (effect_stop s)
   \<and> quiescent init
   \<and> (quiescent s \<longrightarrow> useEffect_cleanup s = s)
   \<and> (quiescent s \<and> \<not> isAssistantActive s \<longrightarrow> rerender s = s)"
proof (intro conjI impI)
  show "effect_stop (effect_stop s) = effect_stop s"
    using quiescent_effect_stop by (rule quiescent_fixed)
  show "effect_stop s = s \<longleftrightarrow> quiescent s"
  proof
    assume "effect_stop s = s"
    with quiescent_effect_stop [of s] show "quiescent s" by simp
  next
    assume "quiescent s"
    then show "effect_stop s = s" by (rule quiescent_fixed)
  qed
  show "quiescent (effect_stop s)" by (rule quiescent_effect_stop)
  show "quiescent init" by (rule quiescent_init)
next
  assume "quiescent s"
  then show "useEffect_cleanup s = s" by (rule quiescent_cleanup)
next
  assume "quiescent s \<and> \<not> isAssistantActive s"
  then show "rerender s = s"
    by (simp add: rerender_inactive_eq quiescent_cleanup quiescent_fixed)
qed

lemma stopped_quiescent:
  "quiescent (step Toggle listening)" "\<not> isAssistantActive (step Toggle listening)"
  by (simp_all add: quiescent_def run_simps)

theorem stop_idempotent_witness:
  "quiescent (step Toggle listening) \<and> \<not> isAssistantActive (step Toggle listening)
   \<and> effect_stop (step Toggle listening) = step Toggle listening
   \<and> useEffect_cleanup (step Toggle listening) = step Toggle listening
   \<and> rerender (step Toggle listening) = step Toggle listening"
  using stop_idempotent [of "step Toggle listening"] stopped_quiescent by blast

text \<open>
  Claim C8 as stated fails. A session is started and stopped again before the camera is
  granted; the grant arrives afterwards, and the inactive session then holds a running
  stream and shows \<^verbatim>\<open>Listening...\<close>. Run on this idle session, the stop path releases the
  stream and resets the status message.
\<close>

theorem stop_changes_idle_session_counterexample:
  "\<not> isAssistantActive late_camera_grant
   \<and> mediaStreamRef late_camera_grant = Some 2
   \<and> liveTracks late_camera_grant = {2}
   \<and> statusMessage late_camera_grant = js ''Listening...''
   \<and> mediaStreamRef (effect_stop late_camera_grant) = None
   \<and> liveTracks (effect_stop late_camera_grant) = {}
   \<and> statusMessage (effect_stop late_camera_grant) = js ''Tap screen to begin''
   \<and> effect_stop late_camera_grant \<noteq> late_camera_grant"
proof -
  have f: "\<not> isAssistantActive late_camera_grant"
    "mediaStreamRef late_camera_grant = Some 2"
    "liveTracks late_camera_grant = {2}"
    "statusMessage late_camera_grant = js ''Listening...''"
    by (simp_all add: late_camera_grant_def mounted_eq startCamera_resolved_def run_simps)
  have g: "mediaStreamRef (effect_stop late_camera_grant) = None"
    "liveTracks (effect_stop late_camera_grant) = {}"
    "statusMessage (effect_stop late_camera_grant) = js ''Tap screen to begin''"
    by (simp_all add: effect_stop_eq f)
  from f(2) g(1) have "effect_stop late_camera_grant \<noteq> late_camera_grant" by auto
  with f g show ?thesis by blast
qed

end
